theory Spec2Isabelle
  imports Main "HOL-Library.Word" "HOL-Library.Monad_Syntax"
begin

unbundle bit_operations_syntax

section \<open>Machine words, byte order and packet memory\<close>

type_synonym u8 = "8 word"
type_synonym u16 = "16 word"
type_synonym u32 = "32 word"
type_synonym u64 = "64 word"

text \<open>
  The two programs are compiled for a BPF target of either byte order
  (\<^verbatim>\<open>bpfel\<close> or \<^verbatim>\<open>bpfeb\<close>); the byte order decides what a multi-byte load
  returns and what \<^verbatim>\<open>bpf_htons\<close>/\<^verbatim>\<open>bpf_ntohs\<close> do, so it is a parameter
  of the model.
\<close>

datatype endian = Little_endian | Big_endian

fun le_bytes :: "u8 list \<Rightarrow> 'a::len word" where
  "le_bytes [] = 0"
| "le_bytes (b # bs) = ucast b OR push_bit 8 (le_bytes bs)"

definition load_word :: "endian \<Rightarrow> u8 list \<Rightarrow> 'a::len word" where
  "load_word e bs = (case e of Little_endian \<Rightarrow> le_bytes bs | Big_endian \<Rightarrow> le_bytes (rev bs))"

definition bswap16 :: "u16 \<Rightarrow> u16" where
  "bswap16 x = push_bit 8 x OR drop_bit 8 x"

definition bpf_htons :: "endian \<Rightarrow> u16 \<Rightarrow> u16" where
  "bpf_htons e x = (case e of Little_endian \<Rightarrow> bswap16 x | Big_endian \<Rightarrow> x)"

definition bpf_ntohs :: "endian \<Rightarrow> u16 \<Rightarrow> u16" where
  "bpf_ntohs e x = (case e of Little_endian \<Rightarrow> bswap16 x | Big_endian \<Rightarrow> x)"

text \<open>The \<^verbatim>\<open>#define\<close>s of both files, and the constants of the kernel headers they use.\<close>

abbreviation (input) ETH_P_IP :: u16 where "ETH_P_IP \<equiv> 0x0800"
abbreviation (input) IPPROTO_TCP :: u8 where "IPPROTO_TCP \<equiv> 6"
abbreviation (input) HTTP_GET :: u32 where "HTTP_GET \<equiv> 0x47455420"
abbreviation (input) HTTP_POST :: u32 where "HTTP_POST \<equiv> 0x504f5354"
abbreviation (input) MAX_URL_LEN :: nat where "MAX_URL_LEN \<equiv> 192"
abbreviation (input) CACHE_TTL_NS :: u64 where "CACHE_TTL_NS \<equiv> 60000000000"
abbreviation (input) FNV_OFFSET :: u64 where "FNV_OFFSET \<equiv> 0xcbf29ce484222325"
abbreviation (input) FNV_PRIME :: u64 where "FNV_PRIME \<equiv> 0x100000001b3"

text \<open>
  \<^verbatim>\<open>sizeof(struct ethhdr)\<close>, \<^verbatim>\<open>sizeof(struct iphdr)\<close> and \<^verbatim>\<open>sizeof(struct tcphdr)\<close>.
  The three structs, \<^verbatim>\<open>IPPROTO_TCP\<close> and the verdict codes come from \<^verbatim>\<open>vmlinux.h\<close>, which
  is generated from the kernel and is not part of the sources; the model takes the
  kernel's layout: \<^verbatim>\<open>h_proto\<close> at offset 12 of the Ethernet header; version and IHL in
  the high and low nibble of the first IP byte, \<^verbatim>\<open>protocol\<close> at offset 9 and \<^verbatim>\<open>daddr\<close> at
  offset 16 of the IP header; \<^verbatim>\<open>dest\<close> at offset 2 and \<^verbatim>\<open>doff\<close> in the high nibble of
  byte 12 of the TCP header.
\<close>

abbreviation (input) sizeof_ethhdr :: nat where "sizeof_ethhdr \<equiv> 14"
abbreviation (input) sizeof_iphdr :: nat where "sizeof_iphdr \<equiv> 20"
abbreviation (input) sizeof_tcphdr :: nat where "sizeof_tcphdr \<equiv> 20"

datatype xdp_action = XDP_ABORTED | XDP_DROP | XDP_PASS | XDP_TX | XDP_REDIRECT

datatype tc_action = TC_ACT_OK | TC_ACT_SHOT

section \<open>Map keys and values\<close>

record route_key =
  prefix_len :: u32
  dest_ip :: u32
  dest_port :: u16
  protocol :: u8

record route_value =
  action :: u8
  backend_ip :: u32
  backend_port :: u16
  padding :: "u8 list"

record stats_value =
  packets_total :: u64
  packets_passed :: u64
  packets_dropped :: u64
  cache_hits :: u64

record cache_key =
  hash :: u64
  "method" :: u16
  port :: u16
  padding :: u32

record cache_value =
  timestamp :: u64
  status :: u32
  content_len :: u16
  content_type :: u8
  body :: "u8 list"

section \<open>Execution state\<close>

text \<open>
  A hook runs on one CPU against that CPU's instance of the per-CPU \<^verbatim>\<open>stats\<close> map.
  The state is that instance together with a trace of what the run did: every
  dereference of packet memory (offset from \<^verbatim>\<open>data\<close>, size), every helper call,
  every counter increment and the call of the fingerprint function, in program order.
\<close>

datatype stats_field = Packets_total | Packets_passed | Packets_dropped | Cache_hits

datatype event =
    Load nat nat
  | Lookup_stats u32
  | Lookup_route route_key
  | Lookup_cache cache_key
  | Ktime_get_ns
  | Incr_field stats_field
  | Incr_slot u32
  | Call_fnv1a nat u32

record 's hook_state =
  stats :: 's
  trace :: "event list"

definition emit :: "event \<Rightarrow> 's hook_state \<Rightarrow> 's hook_state" where
  "emit ev s = s\<lparr>trace := trace s @ [ev]\<rparr>"

text \<open>
  The packet is the byte list between \<^verbatim>\<open>data\<close> and \<^verbatim>\<open>data_end\<close>; a pointer into it is
  its offset from \<^verbatim>\<open>data\<close>, so \<^verbatim>\<open>data\<close> is 0 and \<^verbatim>\<open>data_end\<close> is the length. A
  dereference of \<open>n\<close> bytes at \<open>off\<close> that is not inside the packet is a fault:
  the result \<open>None\<close>.
\<close>

definition load :: "u8 list \<Rightarrow> nat \<Rightarrow> nat \<Rightarrow> 's hook_state \<Rightarrow> (u8 list \<times> 's hook_state) option" where
  "load pkt off n s =
     (if off + n \<le> length pkt then Some (take n (drop off pkt), emit (Load off n) s) else None)"

definition load_u8 :: "u8 list \<Rightarrow> nat \<Rightarrow> 's hook_state \<Rightarrow> (u8 \<times> 's hook_state) option" where
  "load_u8 pkt off s = do { (bs, s1) \<leftarrow> load pkt off 1 s; Some (hd bs, s1) }"

text \<open>Field reads, at the offsets of the kernel's struct layouts.\<close>

definition eth_h_proto :: "endian \<Rightarrow> u8 list \<Rightarrow> nat \<Rightarrow> 's hook_state \<Rightarrow> (u16 \<times> 's hook_state) option" where
  "eth_h_proto e pkt eth s = do { (bs, s1) \<leftarrow> load pkt (eth + 12) 2 s; Some (load_word e bs, s1) }"

definition ip_version :: "u8 list \<Rightarrow> nat \<Rightarrow> 's hook_state \<Rightarrow> (u8 \<times> 's hook_state) option" where
  "ip_version pkt ip s = do { (b, s1) \<leftarrow> load_u8 pkt ip s; Some (drop_bit 4 b, s1) }"

definition ip_ihl :: "u8 list \<Rightarrow> nat \<Rightarrow> 's hook_state \<Rightarrow> (u8 \<times> 's hook_state) option" where
  "ip_ihl pkt ip s = do { (b, s1) \<leftarrow> load_u8 pkt ip s; Some (b AND 0xf, s1) }"

definition ip_protocol :: "u8 list \<Rightarrow> nat \<Rightarrow> 's hook_state \<Rightarrow> (u8 \<times> 's hook_state) option" where
  "ip_protocol pkt ip s = load_u8 pkt (ip + 9) s"

definition ip_daddr :: "endian \<Rightarrow> u8 list \<Rightarrow> nat \<Rightarrow> 's hook_state \<Rightarrow> (u32 \<times> 's hook_state) option" where
  "ip_daddr e pkt ip s = do { (bs, s1) \<leftarrow> load pkt (ip + 16) 4 s; Some (load_word e bs, s1) }"

definition tcp_dest :: "endian \<Rightarrow> u8 list \<Rightarrow> nat \<Rightarrow> 's hook_state \<Rightarrow> (u16 \<times> 's hook_state) option" where
  "tcp_dest e pkt tcp s = do { (bs, s1) \<leftarrow> load pkt (tcp + 2) 2 s; Some (load_word e bs, s1) }"

definition tcp_doff :: "u8 list \<Rightarrow> nat \<Rightarrow> 's hook_state \<Rightarrow> (u8 \<times> 's hook_state) option" where
  "tcp_doff pkt tcp s = do { (b, s1) \<leftarrow> load_u8 pkt (tcp + 12) s; Some (drop_bit 4 b, s1) }"

text \<open>
  \<^verbatim>\<open>bpf_map_lookup_elem\<close> on an array map: a pointer to the slot (here its index) when
  the key is below \<^verbatim>\<open>max_entries\<close>, \<^verbatim>\<open>NULL\<close> otherwise.
\<close>

definition array_lookup :: "nat \<Rightarrow> u32 \<Rightarrow> u32 option" where
  "array_lookup max_entries key = (if unat key < max_entries then Some key else None)"

section \<open>The receive hook (xdp\_router.c)\<close>

text \<open>
  \<^verbatim>\<open>stats\<close> of this file is a per-CPU array of one \<^verbatim>\<open>struct stats_value\<close>; its only
  slot is the \<open>stats\<close> field of the state.
\<close>

fun incr_field :: "stats_field \<Rightarrow> stats_value hook_state \<Rightarrow> stats_value hook_state" where
  "incr_field Packets_total s =
     emit (Incr_field Packets_total) (s\<lparr>stats := (stats s)\<lparr>packets_total := packets_total (stats s) + 1\<rparr>\<rparr>)"
| "incr_field Packets_passed s =
     emit (Incr_field Packets_passed) (s\<lparr>stats := (stats s)\<lparr>packets_passed := packets_passed (stats s) + 1\<rparr>\<rparr>)"
| "incr_field Packets_dropped s =
     emit (Incr_field Packets_dropped) (s\<lparr>stats := (stats s)\<lparr>packets_dropped := packets_dropped (stats s) + 1\<rparr>\<rparr>)"
| "incr_field Cache_hits s =
     emit (Incr_field Cache_hits) (s\<lparr>stats := (stats s)\<lparr>cache_hits := cache_hits (stats s) + 1\<rparr>\<rparr>)"

text \<open>The three parsers return \<^verbatim>\<open>-1\<close> (here \<open>None\<close>) or 0 with the header pointer.\<close>

definition parse_eth :: "nat \<Rightarrow> nat \<Rightarrow> nat option" where
  "parse_eth data data_end =
     (let eth_hdr = data in
      if eth_hdr + sizeof_ethhdr > data_end then None else Some eth_hdr)"

definition parse_ip :: "u8 list \<Rightarrow> nat \<Rightarrow> nat \<Rightarrow> 's hook_state \<Rightarrow> (nat option \<times> 's hook_state) option" where
  "parse_ip pkt data_end eth s =
     (let ip_hdr = eth + sizeof_ethhdr in
      if ip_hdr + sizeof_iphdr > data_end then Some (None, s)
      else do {
        (version, s1) \<leftarrow> ip_version pkt ip_hdr s;
        if version \<noteq> 4 then Some (None, s1) else Some (Some ip_hdr, s1)
      })"

definition parse_tcp :: "u8 list \<Rightarrow> nat \<Rightarrow> nat \<Rightarrow> 's hook_state \<Rightarrow> (nat option \<times> 's hook_state) option" where
  "parse_tcp pkt data_end ip s =
     do {
       (ihl, s1) \<leftarrow> ip_ihl pkt ip s;
       let tcp_hdr = ip + unat ihl * 4;
       if tcp_hdr + sizeof_tcphdr > data_end then Some (None, s1) else Some (Some tcp_hdr, s1)
     }"

text \<open>The tail of \<^verbatim>\<open>xdp_router_prog\<close> from the result of the route lookup on.\<close>

definition xdp_dispatch :: "route_value option \<Rightarrow> stats_value hook_state \<Rightarrow> xdp_action \<times> stats_value hook_state" where
  "xdp_dispatch route s =
     (case route of
        Some r \<Rightarrow>
          if action r = 1 then (XDP_DROP, incr_field Packets_dropped s)
          else if action r = 2 then (XDP_TX, incr_field Packets_passed s)
          else (XDP_PASS, incr_field Packets_passed s)
      | None \<Rightarrow> (XDP_PASS, incr_field Packets_passed s))"

definition xdp_router_prog ::
  "endian \<Rightarrow> (route_key \<Rightarrow> route_value option) \<Rightarrow> u8 list \<Rightarrow> stats_value hook_state
     \<Rightarrow> (xdp_action \<times> stats_value hook_state) option" where
  "xdp_router_prog e route_map pkt s0 =
     (let data_end = length pkt; data = 0; stats_key = 0;
          s = emit (Lookup_stats stats_key) s0 in
      case array_lookup 1 stats_key of
        None \<Rightarrow> Some (XDP_PASS, s)
      | Some stats_val \<Rightarrow>
         (let s = incr_field Packets_total s in
          case parse_eth data data_end of
            None \<Rightarrow> Some (XDP_PASS, s)
          | Some eth \<Rightarrow> do {
              (h_proto, s) \<leftarrow> eth_h_proto e pkt eth s;
              if h_proto \<noteq> bpf_htons e ETH_P_IP then Some (XDP_PASS, s)
              else do {
                (ipo, s) \<leftarrow> parse_ip pkt data_end eth s;
                (case ipo of
                  None \<Rightarrow> Some (XDP_PASS, s)
                | Some ip \<Rightarrow> do {
                    (proto, s) \<leftarrow> ip_protocol pkt ip s;
                    if proto \<noteq> IPPROTO_TCP then Some (XDP_PASS, s)
                    else do {
                      (tcpo, s) \<leftarrow> parse_tcp pkt data_end ip s;
                      (case tcpo of
                        None \<Rightarrow> Some (XDP_PASS, s)
                      | Some tcp \<Rightarrow> do {
                          (daddr, s) \<leftarrow> ip_daddr e pkt ip s;
                          (dest, s) \<leftarrow> tcp_dest e pkt tcp s;
                          (proto, s) \<leftarrow> ip_protocol pkt ip s;
                          let key = \<lparr>prefix_len = 48, dest_ip = daddr, dest_port = dest, protocol = proto\<rparr>;
                          let s = emit (Lookup_route key) s;
                          Some (xdp_dispatch (route_map key) s)
                        })
                    }
                  })
              }
            }))"

section \<open>The transmit hook (tc\_cache.c)\<close>

text \<open>
  \<^verbatim>\<open>stats\<close> of this file is a per-CPU array of four \<^verbatim>\<open>__u64\<close>, indexed by the key;
  \<^verbatim>\<open>(*count)++\<close> adds one to the slot the lookup returned.
\<close>

definition incr_slot :: "u32 \<Rightarrow> (u32 \<Rightarrow> u64) hook_state \<Rightarrow> (u32 \<Rightarrow> u64) hook_state" where
  "incr_slot k s = emit (Incr_slot k) (s\<lparr>stats := (stats s)(k := stats s k + 1)\<rparr>)"

text \<open>
  \<^verbatim>\<open>fnv1a_hash(data, len)\<close>: the loop variable \<open>i\<close> runs from 0, and every
  \<^verbatim>\<open>bytes[i]\<close> is a dereference of the memory \<open>data\<close> points into.
\<close>

function fnv1a_loop ::
  "u8 list \<Rightarrow> nat \<Rightarrow> u32 \<Rightarrow> nat \<Rightarrow> u64 \<Rightarrow> 's hook_state \<Rightarrow> (u64 \<times> 's hook_state) option" where
  "fnv1a_loop mem bytes len i h s =
     (if i < 256 \<and> i < unat len then
        (if i \<ge> unat len then Some (h, s)
         else case load_u8 mem (bytes + i) s of
                None \<Rightarrow> None
              | Some (b, s1) \<Rightarrow> fnv1a_loop mem bytes len (i + 1) ((h XOR ucast b) * FNV_PRIME) s1)
      else Some (h, s))"
  by pat_completeness auto
termination
  by (relation "measure (\<lambda>(mem, bytes, len, i, h, s). 256 - i)") auto

declare fnv1a_loop.simps [simp del]

definition fnv1a_hash ::
  "u8 list \<Rightarrow> nat \<Rightarrow> u32 \<Rightarrow> 's hook_state \<Rightarrow> (u64 \<times> 's hook_state) option" where
  "fnv1a_hash mem data len s = fnv1a_loop mem data len 0 FNV_OFFSET (emit (Call_fnv1a data len) s)"

text \<open>
  \<^verbatim>\<open>parse_http_start\<close> returns \<^verbatim>\<open>-1\<close> (here \<open>None\<close>) or 0 with the payload pointer
  and the raw 32-bit load at it.
\<close>

definition parse_http_start ::
  "endian \<Rightarrow> u8 list \<Rightarrow> nat \<Rightarrow> nat \<Rightarrow> 's hook_state \<Rightarrow> ((nat \<times> u32) option \<times> 's hook_state) option" where
  "parse_http_start e pkt data_end tcp s =
     do {
       (doff, s1) \<leftarrow> tcp_doff pkt tcp s;
       let start = tcp + unat doff * 4;
       if start + 4 > data_end then Some (None, s1)
       else do {
         (bs, s2) \<leftarrow> load pkt start 4 s1;
         Some (Some (start, load_word e bs), s2)
       }
     }"

text \<open>The URL scan of \<^verbatim>\<open>tc_http_cache\<close>: \<open>i\<close> is the loop variable, \<open>url_len\<close> the count.\<close>

function url_scan ::
  "u8 list \<Rightarrow> nat \<Rightarrow> nat \<Rightarrow> nat \<Rightarrow> nat \<Rightarrow> 's hook_state \<Rightarrow> (nat \<times> 's hook_state) option" where
  "url_scan pkt url_start data_end i url_len s =
     (if i < MAX_URL_LEN then
        (if url_start + i \<ge> data_end then Some (url_len, s)
         else case load_u8 pkt (url_start + i) s of
                None \<Rightarrow> None
              | Some (c, s1) \<Rightarrow>
                  if c = 0x20 \<or> c = 0x0d \<or> c = 0x0a then Some (url_len, s1)
                  else url_scan pkt url_start data_end (i + 1) (url_len + 1) s1)
      else Some (url_len, s))"
  by pat_completeness auto
termination
  by (relation "measure (\<lambda>(pkt, url_start, data_end, i, url_len, s). MAX_URL_LEN - i)") auto

declare url_scan.simps [simp del]

text \<open>
  The tail of \<^verbatim>\<open>tc_http_cache\<close> from the cache lookup on. \<open>http_cache\<close> is what
  \<^verbatim>\<open>bpf_map_lookup_elem\<close> returns on the cache map at the time of the call, \<open>now\<close>
  what \<^verbatim>\<open>bpf_ktime_get_ns\<close> returns.
\<close>

definition tc_cache_check ::
  "(cache_key \<Rightarrow> cache_value option) \<Rightarrow> u64 \<Rightarrow> cache_key \<Rightarrow> (u32 \<Rightarrow> u64) hook_state
     \<Rightarrow> tc_action \<times> (u32 \<Rightarrow> u64) hook_state" where
  "tc_cache_check http_cache ktime key s0 =
     (let s = emit (Lookup_cache key) s0 in
      case http_cache key of
        Some cached \<Rightarrow>
         (let s = emit Ktime_get_ns s; now = ktime in
          if now - timestamp cached < CACHE_TTL_NS then
            (let hit_key = 1; s = emit (Lookup_stats hit_key) s in
             case array_lookup 4 hit_key of
               Some hits \<Rightarrow> (TC_ACT_OK, incr_slot hits s)
             | None \<Rightarrow> (TC_ACT_OK, s))
          else (TC_ACT_OK, s))
      | None \<Rightarrow> (TC_ACT_OK, s))"

definition tc_http_cache ::
  "endian \<Rightarrow> (cache_key \<Rightarrow> cache_value option) \<Rightarrow> u64 \<Rightarrow> u8 list \<Rightarrow> (u32 \<Rightarrow> u64) hook_state
     \<Rightarrow> (tc_action \<times> (u32 \<Rightarrow> u64) hook_state) option" where
  "tc_http_cache e http_cache ktime pkt s0 =
     (let data_end = length pkt; data = 0; stats_key = 0;
          s = emit (Lookup_stats stats_key) s0;
          s = (case array_lookup 4 stats_key of Some count \<Rightarrow> incr_slot count s | None \<Rightarrow> s);
          eth = data in
      if eth + sizeof_ethhdr > data_end then Some (TC_ACT_OK, s)
      else do {
        (h_proto, s) \<leftarrow> eth_h_proto e pkt eth s;
        if h_proto \<noteq> bpf_htons e ETH_P_IP then Some (TC_ACT_OK, s)
        else (let ip = eth + sizeof_ethhdr in
          if ip + sizeof_iphdr > data_end then Some (TC_ACT_OK, s)
          else do {
            (proto, s) \<leftarrow> ip_protocol pkt ip s;
            if proto \<noteq> IPPROTO_TCP then Some (TC_ACT_OK, s)
            else do {
              (ihl, s) \<leftarrow> ip_ihl pkt ip s;
              let tcp = ip + unat ihl * 4;
              if tcp + sizeof_tcphdr > data_end then Some (TC_ACT_OK, s)
              else do {
                (dest, s) \<leftarrow> tcp_dest e pkt tcp s;
                let dport = bpf_ntohs e dest;
                if dport \<noteq> 80 \<and> dport \<noteq> 8080 \<and> dport \<noteq> 3000 then Some (TC_ACT_OK, s)
                else do {
                  (r, s) \<leftarrow> parse_http_start e pkt data_end tcp s;
                  (case r of
                    None \<Rightarrow> Some (TC_ACT_OK, s)
                  | Some (http_start, method_raw) \<Rightarrow>
                     (let method = (if method_raw = HTTP_GET then 1
                                    else if method_raw = HTTP_POST then 2 else (0 :: u16)) in
                      if method \<noteq> 1 then Some (TC_ACT_OK, s)
                      else (let url_start = http_start + 4 in
                        do {
                          (url_len, s) \<leftarrow> url_scan pkt url_start data_end 0 0 s;
                          if url_len = 0 then Some (TC_ACT_OK, s)
                          else do {
                            (h, s) \<leftarrow> fnv1a_hash pkt url_start (of_nat url_len) s;
                            let key = \<lparr>hash = h, method = method, port = dport, padding = 0\<rparr>;
                            Some (tc_cache_check http_cache ktime key s)
                          }
                        })))
                }
              }
            }
          })
      })"

section \<open>What a packet says, read at the header offsets\<close>

text \<open>
  The header fields as functions of the packet bytes: the Ethernet protocol
  field and the TCP destination port in network byte order, the IP version (high nibble
  of the first IP byte), the offset of the TCP header (14 + IHL * 4) and of the payload
  (TCP offset + doff * 4).
\<close>

definition ethertype :: "u8 list \<Rightarrow> u16" where
  "ethertype pkt = load_word Big_endian [pkt ! 12, pkt ! 13]"

definition ip_vers :: "u8 list \<Rightarrow> u8" where
  "ip_vers pkt = drop_bit 4 (pkt ! 14)"

definition ip_proto :: "u8 list \<Rightarrow> u8" where
  "ip_proto pkt = pkt ! 23"

definition tcp_off :: "u8 list \<Rightarrow> nat" where
  "tcp_off pkt = 14 + unat (pkt ! 14 AND 0xf) * 4"

definition tcp_dport :: "u8 list \<Rightarrow> u16" where
  "tcp_dport pkt = load_word Big_endian [pkt ! (tcp_off pkt + 2), pkt ! (tcp_off pkt + 3)]"

definition payload_off :: "u8 list \<Rightarrow> nat" where
  "payload_off pkt = tcp_off pkt + unat (drop_bit 4 (pkt ! (tcp_off pkt + 12)) :: u8) * 4"

text \<open>An IPv4/TCP packet whose Ethernet, IP and TCP headers lie inside the buffer.\<close>

definition ipv4_tcp_packet :: "u8 list \<Rightarrow> bool" where
  "ipv4_tcp_packet pkt \<longleftrightarrow>
     14 \<le> length pkt \<and> ethertype pkt = 0x0800 \<and> 34 \<le> length pkt \<and> ip_vers pkt = 4 \<and>
     ip_proto pkt = 6 \<and> tcp_off pkt + 20 \<le> length pkt"

text \<open>The key the receive hook builds for such a packet.\<close>

definition xdp_key :: "endian \<Rightarrow> u8 list \<Rightarrow> route_key" where
  "xdp_key e pkt =
     \<lparr>prefix_len = 48, dest_ip = load_word e (take 4 (drop 30 pkt)),
      dest_port = load_word e [pkt ! (tcp_off pkt + 2), pkt ! (tcp_off pkt + 3)],
      protocol = ip_proto pkt\<rparr>"

text \<open>A run starts with the CPU's counters and an empty trace.\<close>

definition start :: "'s \<Rightarrow> 's hook_state" where
  "start st = \<lparr>stats = st, trace = []\<rparr>"

text \<open>
  The invocations of the receive hook on one CPU, one after the other, each with the
  route table as it is at that time: the counters one invocation leaves are those the
  next one starts with.
\<close>

fun xdp_run ::
  "endian \<Rightarrow> ((route_key \<Rightarrow> route_value option) \<times> u8 list) list \<Rightarrow> stats_value \<Rightarrow> stats_value option" where
  "xdp_run e [] st = Some st"
| "xdp_run e ((rm, pkt) # rest) st =
     (case xdp_router_prog e rm pkt (start st) of
        None \<Rightarrow> None
      | Some (v, s) \<Rightarrow> xdp_run e rest (stats s))"

definition in_bounds :: "u8 list \<Rightarrow> event \<Rightarrow> bool" where
  "in_bounds pkt ev = (case ev of Load off n \<Rightarrow> off + n \<le> length pkt | _ \<Rightarrow> False)"

definition others_sum :: "stats_value \<Rightarrow> nat" where
  "others_sum sv = unat (packets_passed sv) + unat (packets_dropped sv) + unat (cache_hits sv)"

definition outcome :: "('v \<times> 's hook_state) option \<Rightarrow> ('v \<times> 's) option" where
  "outcome r = map_option (\<lambda>(v, s). (v, stats s)) r"

definition events :: "('v \<times> 's hook_state) option \<Rightarrow> event list option" where
  "events r = map_option (\<lambda>(v, s). trace s) r"

section \<open>The URL token and the fingerprint, as the specification words them\<close>

definition is_delim :: "u8 \<Rightarrow> bool" where
  "is_delim c \<longleftrightarrow> c = 0x20 \<or> c = 0x0d \<or> c = 0x0a"

text \<open>
  The URL token at \<open>url_start\<close>: the bytes from there up to the first space, carriage
  return or line feed, or the end of the buffer, or 192 bytes, whichever comes first.
\<close>

definition url_token :: "u8 list \<Rightarrow> nat \<Rightarrow> u8 list" where
  "url_token pkt url_start = take MAX_URL_LEN (takeWhile (\<lambda>c. \<not> is_delim c) (drop url_start pkt))"

text \<open>The 64-bit FNV-1a fold over at most the first 256 bytes.\<close>

definition fnv1a_step :: "u8 \<Rightarrow> u64 \<Rightarrow> u64" where
  "fnv1a_step b h = (h XOR ucast b) * FNV_PRIME"

definition fnv1a_spec :: "u8 list \<Rightarrow> u64" where
  "fnv1a_spec bs = fold fnv1a_step (take 256 bs) FNV_OFFSET"

text \<open>
  A packet the transmit hook takes for a GET request: the checks of \<^verbatim>\<open>tc_http_cache\<close> up
  to \<^verbatim>\<open>method != 1\<close>, on the packet bytes. The method token is compared as the raw
  32-bit load of the target, as the code does.
\<close>

definition tc_get_request :: "endian \<Rightarrow> u8 list \<Rightarrow> bool" where
  "tc_get_request e pkt \<longleftrightarrow>
     14 \<le> length pkt \<and> ethertype pkt = 0x0800 \<and> 34 \<le> length pkt \<and> ip_proto pkt = 6 \<and>
     tcp_off pkt + 20 \<le> length pkt \<and>
     (tcp_dport pkt = 80 \<or> tcp_dport pkt = 8080 \<or> tcp_dport pkt = 3000) \<and>
     payload_off pkt + 4 \<le> length pkt \<and>
     load_word e (take 4 (drop (payload_off pkt) pkt)) = HTTP_GET"

text \<open>The key the transmit hook builds for such a packet.\<close>

definition tc_key :: "u8 list \<Rightarrow> cache_key" where
  "tc_key pkt =
     \<lparr>hash = fnv1a_spec (url_token pkt (payload_off pkt + 4)), method = 1,
      port = tcp_dport pkt, padding = 0\<rparr>"

text \<open>The header checks of the two hooks, as conditions on the buffer length.\<close>

definition xdp_headers_fit :: "u8 list \<Rightarrow> bool" where
  "xdp_headers_fit pkt \<longleftrightarrow>
     14 \<le> length pkt \<and> 34 \<le> length pkt \<and> tcp_off pkt + 20 \<le> length pkt"

definition tc_headers_fit :: "u8 list \<Rightarrow> bool" where
  "tc_headers_fit pkt \<longleftrightarrow>
     14 \<le> length pkt \<and> 34 \<le> length pkt \<and> tcp_off pkt + 20 \<le> length pkt \<and>
     payload_off pkt + 4 \<le> length pkt"

text \<open>
  Bookkeeping for the two loops: the single-byte loads at \<open>base + i\<close> up to \<open>base + j - 1\<close>,
  and the token and the number of bytes read when the scan is at index \<open>i\<close>.
\<close>

definition byte_loads :: "nat \<Rightarrow> nat \<Rightarrow> nat \<Rightarrow> event list" where
  "byte_loads base i j = map (\<lambda>k. Load (base + k) 1) [i..<j]"

definition tok_from :: "u8 list \<Rightarrow> nat \<Rightarrow> nat \<Rightarrow> u8 list" where
  "tok_from pkt us i = take (MAX_URL_LEN - i) (takeWhile (\<lambda>c. \<not> is_delim c) (drop (us + i) pkt))"

definition read_from :: "u8 list \<Rightarrow> nat \<Rightarrow> nat \<Rightarrow> nat" where
  "read_from pkt us i =
     (let n = length (tok_from pkt us i) in
      if n < MAX_URL_LEN - i \<and> us + i + n < length pkt then n + 1 else n)"

text \<open>The number of URL bytes the scan dereferences: the token, and the delimiter if one stopped it.\<close>

definition url_bytes_read :: "u8 list \<Rightarrow> nat \<Rightarrow> nat" where
  "url_bytes_read pkt url_start =
     (let n = length (url_token pkt url_start) in
      if n < MAX_URL_LEN \<and> url_start + n < length pkt then n + 1 else n)"

section \<open>Concrete inputs\<close>

text \<open>
  A 54-byte frame: Ethernet (type 0x0800), IPv4 (first byte \<open>vihl\<close>: version and
  IHL; protocol 6, destination 10.0.0.2), TCP (destination port \<open>p\<close> below 256, data
  offset 5), no payload.
\<close>

definition frame_tcp :: "u8 \<Rightarrow> u8 \<Rightarrow> u8 list" where
  "frame_tcp vihl p =
     [0, 0, 0, 0, 0, 1, 0, 0, 0, 0, 0, 2, 0x08, 0x00,
      vihl, 0, 0, 40, 0, 0, 0, 0, 64, 6, 0, 0, 10, 0, 0, 1, 10, 0, 0, 2,
      0x12, 0x34, 0, p, 0, 0, 0, 0, 0, 0, 0, 0, 0x50, 0x10, 0, 0, 0, 0, 0, 0]"

text \<open>An ARP frame header (type 0x0806) with two more bytes.\<close>

definition frame_arp :: "u8 list" where
  "frame_arp = [0, 0, 0, 0, 0, 1, 0, 0, 0, 0, 0, 2, 0x08, 0x06, 0, 1]"

text \<open>
  The four bytes that the raw 32-bit load of each target reads as \<^verbatim>\<open>HTTP_GET\<close>
  (0x47455420): \<^verbatim>\<open>"GET "\<close> on the big-endian target, the same bytes reversed on the
  little-endian one.
\<close>

definition get_token :: "endian \<Rightarrow> u8 list" where
  "get_token e = (case e of Big_endian \<Rightarrow> [0x47, 0x45, 0x54, 0x20]
                           | Little_endian \<Rightarrow> [0x20, 0x54, 0x45, 0x47])"

text \<open>\<^verbatim>\<open>"/a/b HTTP/1.1\r\n"\<close> and \<^verbatim>\<open>"/abc"\<close>.\<close>

definition url_ab_line :: "u8 list" where
  "url_ab_line =
     [0x2f, 0x61, 0x2f, 0x62, 0x20, 0x48, 0x54, 0x54, 0x50, 0x2f, 0x31, 0x2e, 0x31, 0x0d, 0x0a]"

definition url_abc :: "u8 list" where
  "url_abc = [0x2f, 0x61, 0x62, 0x63]"

definition get_request :: "endian \<Rightarrow> u8 list" where
  "get_request e = frame_tcp 0x45 80 @ get_token e @ url_ab_line"

text \<open>
  The request \<^verbatim>\<open>"GET /a/b HTTP/1.1\r\n"\<close> as it is on the wire, to port 80: the payload
  starts with the ASCII bytes of \<^verbatim>\<open>"GET "\<close>.
\<close>

definition ascii_get_request :: "u8 list" where
  "ascii_get_request =
     frame_tcp 0x45 80 @ [0x47, 0x45, 0x54, 0x20] @
     [0x2f, 0x61, 0x2f, 0x62, 0x20, 0x48, 0x54, 0x54, 0x50, 0x2f, 0x31, 0x2e, 0x31, 0x0d, 0x0a]"

text \<open>A request whose buffer ends inside the URL, with no delimiter.\<close>

definition get_truncated :: "endian \<Rightarrow> u8 list" where
  "get_truncated e = frame_tcp 0x45 80 @ get_token e @ url_abc"

text \<open>The request with IP version 5 in the first IP byte.\<close>

definition get_request_v5 :: "endian \<Rightarrow> u8 list" where
  "get_request_v5 e = frame_tcp 0x55 80 @ get_token e @ url_ab_line"

text \<open>
  Requests whose URL is empty (a space right after the method token) and whose URL has
  no delimiter in 200 bytes.
\<close>

definition get_empty_url :: "endian \<Rightarrow> u8 list" where
  "get_empty_url e = frame_tcp 0x45 80 @ get_token e @ [0x20, 0x48]"

definition get_long_url :: "endian \<Rightarrow> u8 list" where
  "get_long_url e = frame_tcp 0x45 80 @ get_token e @ replicate 200 0x61"

text \<open>The frame cut to 40 bytes: the TCP header does not fit.\<close>

definition frame_cut :: "u8 list" where
  "frame_cut = take 40 (frame_tcp 0x45 80)"

text \<open>Two byte sequences that agree on their first 256 bytes and differ after them.\<close>

definition bytes_a :: "u8 list" where
  "bytes_a = replicate 256 0x61 @ [0x62]"

definition bytes_b :: "u8 list" where
  "bytes_b = replicate 256 0x61 @ [0x63, 0x64]"

text \<open>Two memories that hold the same two bytes at offset 1.\<close>

definition bytes_c :: "u8 list" where
  "bytes_c = [1, 2, 3]"

definition bytes_d :: "u8 list" where
  "bytes_d = [9, 2, 3, 4]"

definition zero_stats :: stats_value where
  "zero_stats = \<lparr>packets_total = 0, packets_passed = 0, packets_dropped = 0, cache_hits = 0\<rparr>"

definition zero_slots :: "u32 \<Rightarrow> u64" where
  "zero_slots k = 0"

definition route_to :: "u8 \<Rightarrow> route_key \<Rightarrow> route_value option" where
  "route_to a k = Some \<lparr>action = a, backend_ip = 0, backend_port = 0, route_value.padding = [0, 0, 0, 0, 0]\<rparr>"

definition no_route :: "route_key \<Rightarrow> route_value option" where
  "no_route k = None"

definition cached_at :: "u64 \<Rightarrow> cache_key \<Rightarrow> cache_value option" where
  "cached_at t k = Some \<lparr>timestamp = t, status = 200, content_len = 0, content_type = 0, body = []\<rparr>"

definition no_cache :: "cache_key \<Rightarrow> cache_value option" where
  "no_cache k = None"

text \<open>What a run shows of the transmit hook: verdict, total slot, hit slot.\<close>

definition tc_outcome ::
  "(tc_action \<times> (u32 \<Rightarrow> u64) hook_state) option \<Rightarrow> (tc_action \<times> u64 \<times> u64) option" where
  "tc_outcome r = map_option (\<lambda>(v, s). (v, stats s 0, stats s 1)) r"

section \<open>Loads and byte order\<close>

lemma take2_drop:
  "off + 2 \<le> length pkt \<Longrightarrow> k = off + 1 \<Longrightarrow> take 2 (drop off pkt) = [pkt ! off, pkt ! k]"
  by (rule nth_equalityI) (auto simp add: less_Suc_eq numeral_2_eq_2)

lemma load_u8_Some: "off < length pkt \<Longrightarrow> load_u8 pkt off s = Some (pkt ! off, emit (Load off 1) s)"
  by (simp add: load_u8_def load_def hd_drop_conv_nth take_Suc)

lemma bswap16_le_bytes: "bswap16 (le_bytes [a, b]) = le_bytes [b, a]"
  unfolding bswap16_def
  by (rule bit_word_eqI) (auto simp add: bit_simps dest: bit_imp_le_length)

lemma bswap16_bswap16: "bswap16 (bswap16 x) = x"
  unfolding bswap16_def
  by (rule bit_word_eqI) (auto simp add: bit_simps)

lemma ntohs_load: "bpf_ntohs e (load_word e [a, b]) = load_word Big_endian [a, b]"
  by (cases e) (simp_all add: bpf_ntohs_def load_word_def bswap16_le_bytes del: le_bytes.simps)

lemma load_eq_htons: "(load_word e [a, b] = bpf_htons e x) = (load_word Big_endian [a, b] = x)"
proof (cases e)
  case Little_endian
  have "(le_bytes [a, b] = bswap16 x) = (bswap16 (le_bytes [a, b]) = bswap16 (bswap16 x))"
    by (metis bswap16_bswap16)
  then show ?thesis using Little_endian
    by (simp add: bpf_htons_def load_word_def bswap16_le_bytes bswap16_bswap16 del: le_bytes.simps)
next
  case Big_endian
  then show ?thesis by (simp add: bpf_htons_def)
qed

lemma eth_h_proto_Some:
  "eth + 14 \<le> length pkt \<Longrightarrow>
   eth_h_proto e pkt eth s =
     Some (load_word e [pkt ! (eth + 12), pkt ! (eth + 13)], emit (Load (eth + 12) 2) s)"
  using take2_drop [of "eth + 12" pkt "eth + 13"]
  by (simp add: eth_h_proto_def load_def)

lemma tcp_dest_Some:
  "tcp + 20 \<le> length pkt \<Longrightarrow>
   tcp_dest e pkt tcp s =
     Some (load_word e [pkt ! (tcp + 2), pkt ! (tcp + 3)], emit (Load (tcp + 2) 2) s)"
  using take2_drop [of "tcp + 2" pkt "tcp + 3"]
  by (simp add: tcp_dest_def load_def)

lemma ip_version_Some:
  "ip + 20 \<le> length pkt \<Longrightarrow> ip_version pkt ip s = Some (drop_bit 4 (pkt ! ip), emit (Load ip 1) s)"
  by (simp add: ip_version_def load_u8_Some)

lemma ip_ihl_Some:
  "ip + 20 \<le> length pkt \<Longrightarrow> ip_ihl pkt ip s = Some (pkt ! ip AND 0xf, emit (Load ip 1) s)"
  by (simp add: ip_ihl_def load_u8_Some)

lemma ip_protocol_Some:
  "ip + 20 \<le> length pkt \<Longrightarrow> ip_protocol pkt ip s = Some (pkt ! (ip + 9), emit (Load (ip + 9) 1) s)"
  by (simp add: ip_protocol_def load_u8_Some)

lemma ip_daddr_Some:
  "ip + 20 \<le> length pkt \<Longrightarrow>
   ip_daddr e pkt ip s = Some (load_word e (take 4 (drop (ip + 16) pkt)), emit (Load (ip + 16) 4) s)"
  by (simp add: ip_daddr_def load_def)

lemma tcp_doff_Some:
  "tcp + 20 \<le> length pkt \<Longrightarrow>
   tcp_doff pkt tcp s = Some (drop_bit 4 (pkt ! (tcp + 12)), emit (Load (tcp + 12) 1) s)"
  by (simp add: tcp_doff_def load_u8_Some)

lemmas field_reads =
  eth_h_proto_Some tcp_dest_Some ip_version_Some ip_ihl_Some ip_protocol_Some ip_daddr_Some
  tcp_doff_Some

lemmas packet_fields =
  ethertype_def ip_vers_def ip_proto_def tcp_off_def tcp_dport_def payload_off_def

section \<open>The two ways through the receive hook\<close>

lemma xdp_bypass:
  assumes "\<not> ipv4_tcp_packet pkt"
  shows "\<exists>evs. (\<forall>ev \<in> set evs. in_bounds pkt ev) \<and>
           xdp_router_prog e rm pkt (start st) =
           Some (XDP_PASS, \<lparr>stats = st\<lparr>packets_total := packets_total st + 1\<rparr>,
                           trace = Lookup_stats 0 # Incr_field Packets_total # evs\<rparr>)"
  using assms
  by (auto simp add: xdp_router_prog_def array_lookup_def parse_eth_def parse_ip_def parse_tcp_def
        field_reads Let_def load_eq_htons packet_fields ipv4_tcp_packet_def in_bounds_def not_le
        start_def emit_def simp del: le_bytes.simps)

lemma xdp_lookup:
  assumes "ipv4_tcp_packet pkt"
  shows "xdp_router_prog e rm pkt (start st) =
           Some (xdp_dispatch (rm (xdp_key e pkt))
                  \<lparr>stats = st\<lparr>packets_total := packets_total st + 1\<rparr>,
                   trace = [Lookup_stats 0, Incr_field Packets_total, Load 12 2, Load 14 1, Load 23 1,
                            Load 14 1, Load 30 4, Load (tcp_off pkt + 2) 2, Load 23 1,
                            Lookup_route (xdp_key e pkt)]\<rparr>)"
  using assms
  by (simp add: xdp_router_prog_def array_lookup_def parse_eth_def parse_ip_def parse_tcp_def
        field_reads Let_def load_eq_htons packet_fields ipv4_tcp_packet_def xdp_key_def
        start_def emit_def del: le_bytes.simps)

lemma frame_tcp_ipv4_tcp: "ipv4_tcp_packet (frame_tcp 0x45 p)"
  by (simp add: ipv4_tcp_packet_def frame_tcp_def packet_fields load_word_def)

section \<open>The two loops\<close>

lemma byte_loads_Cons: "i < j \<Longrightarrow> byte_loads base i j = Load (base + i) 1 # byte_loads base (Suc i) j"
  by (simp add: byte_loads_def upt_conv_Cons)

lemma byte_loads_Nil: "j \<le> i \<Longrightarrow> byte_loads base i j = []"
  by (simp add: byte_loads_def)

lemma url_scan_step_stop:
  "\<not> (i < MAX_URL_LEN \<and> us + i < de) \<Longrightarrow> url_scan pkt us de i n s = Some (n, s)"
  by (subst url_scan.simps) auto

lemma url_scan_step_delim:
  "i < MAX_URL_LEN \<Longrightarrow> us + i < length pkt \<Longrightarrow> is_delim (pkt ! (us + i)) \<Longrightarrow>
   url_scan pkt us (length pkt) i n s = Some (n, emit (Load (us + i) 1) s)"
  by (subst url_scan.simps) (simp add: load_u8_Some is_delim_def)

lemma url_scan_step_next:
  "i < MAX_URL_LEN \<Longrightarrow> us + i < length pkt \<Longrightarrow> \<not> is_delim (pkt ! (us + i)) \<Longrightarrow>
   url_scan pkt us (length pkt) i n s =
     url_scan pkt us (length pkt) (Suc i) (Suc n) (emit (Load (us + i) 1) s)"
  by (subst url_scan.simps) (simp add: load_u8_Some is_delim_def)

lemma tok_from_stop: "\<not> (i < MAX_URL_LEN \<and> us + i < length pkt) \<Longrightarrow> tok_from pkt us i = []"
  by (auto simp add: tok_from_def)

lemma tok_from_delim:
  "us + i < length pkt \<Longrightarrow> is_delim (pkt ! (us + i)) \<Longrightarrow> tok_from pkt us i = []"
  by (simp add: tok_from_def flip: Cons_nth_drop_Suc)

lemma tok_from_next:
  assumes "i < MAX_URL_LEN" "us + i < length pkt" "\<not> is_delim (pkt ! (us + i))"
  shows "tok_from pkt us i = pkt ! (us + i) # tok_from pkt us (Suc i)"
proof -
  have "MAX_URL_LEN - i = Suc (MAX_URL_LEN - Suc i)" using assms(1) by arith
  then show ?thesis using assms(2,3)
    by (simp add: tok_from_def flip: Cons_nth_drop_Suc)
qed

lemma url_scan_from:
  "url_scan pkt us (length pkt) i n s =
     Some (n + length (tok_from pkt us i),
           s\<lparr>trace := trace s @ byte_loads us i (i + read_from pkt us i)\<rparr>)"
proof (induction "MAX_URL_LEN - i" arbitrary: i n s)
  case 0
  then have "\<not> (i < MAX_URL_LEN \<and> us + i < length pkt)" by simp
  then show ?case
    by (simp add: url_scan_step_stop tok_from_stop read_from_def byte_loads_Nil)
next
  case (Suc k)
  then have i: "i < MAX_URL_LEN" by arith
  show ?case
  proof (cases "us + i < length pkt")
    case False
    then show ?thesis
      by (simp add: url_scan_step_stop tok_from_stop read_from_def byte_loads_Nil)
  next
    case True
    show ?thesis
    proof (cases "is_delim (pkt ! (us + i))")
      case delim: True
      show ?thesis using i True
        by (simp add: url_scan_step_delim [OF i True delim] tok_from_delim [OF True delim]
              read_from_def byte_loads_Cons byte_loads_Nil emit_def)
    next
      case nodelim: False
      have k: "k = MAX_URL_LEN - Suc i" using Suc.hyps(2) by arith
      have r: "read_from pkt us i = Suc (read_from pkt us (Suc i))"
        using i True by (auto simp add: read_from_def tok_from_next [OF i True nodelim] Let_def)
      have b: "byte_loads us i (i + Suc (read_from pkt us (Suc i))) =
                 Load (us + i) 1 # byte_loads us (Suc i) (Suc i + read_from pkt us (Suc i))"
        by (simp add: byte_loads_Cons)
      show ?thesis
        unfolding url_scan_step_next [OF i True nodelim] Suc.hyps(1) [OF k] r b
        by (simp add: tok_from_next [OF i True nodelim] emit_def)
    qed
  qed
qed

lemma fnv1a_loop_stop:
  "\<not> (i < 256 \<and> i < unat len) \<Longrightarrow> fnv1a_loop mem bytes len i h s = Some (h, s)"
  by (subst fnv1a_loop.simps) auto

lemma fnv1a_loop_next:
  "i < 256 \<Longrightarrow> i < unat len \<Longrightarrow> bytes + i < length mem \<Longrightarrow>
   fnv1a_loop mem bytes len i h s =
     fnv1a_loop mem bytes len (Suc i) (fnv1a_step (mem ! (bytes + i)) h) (emit (Load (bytes + i) 1) s)"
  by (subst fnv1a_loop.simps) (simp add: load_u8_Some fnv1a_step_def)

lemma fnv1a_loop_from:
  assumes "bytes + min 256 (unat len) \<le> length mem" and "i \<le> min 256 (unat len)"
  shows "fnv1a_loop mem bytes len i h s =
     Some (fold fnv1a_step (take (min 256 (unat len) - i) (drop (bytes + i) mem)) h,
           s\<lparr>trace := trace s @ byte_loads bytes i (min 256 (unat len))\<rparr>)"
  using assms(2)
proof (induction "min 256 (unat len) - i" arbitrary: i h s)
  case 0
  then have "\<not> (i < 256 \<and> i < unat len)" by auto
  then show ?case using 0
    by (simp add: fnv1a_loop_stop byte_loads_Nil)
next
  case (Suc k)
  then have i: "i < 256" "i < unat len" by auto
  then have m: "i < min 256 (unat len)" by simp
  have b: "bytes + i < length mem" using assms(1) m by arith
  have k: "k = min 256 (unat len) - Suc i" using Suc.hyps(2) by arith
  have le: "Suc i \<le> min 256 (unat len)" using m by arith
  have t: "take (min 256 (unat len) - i) (drop (bytes + i) mem) =
             mem ! (bytes + i) # take (min 256 (unat len) - Suc i) (drop (bytes + Suc i) mem)"
  proof -
    have eq: "min 256 (unat len) - i = Suc (min 256 (unat len) - Suc i)" using m by arith
    show ?thesis unfolding eq using b by (simp flip: Cons_nth_drop_Suc)
  qed
  show ?case
    unfolding fnv1a_loop_next [OF i b] Suc.hyps(1) [OF k le] t
    using m by (simp add: byte_loads_Cons emit_def)
qed

lemma fnv1a_hash_eq:
  assumes "data + min 256 (unat len) \<le> length mem"
  shows "fnv1a_hash mem data len s =
     Some (fnv1a_spec (take (unat len) (drop data mem)),
           s\<lparr>trace := trace s @ Call_fnv1a data len # byte_loads data 0 (min 256 (unat len))\<rparr>)"
proof -
  show ?thesis
    unfolding fnv1a_hash_def fnv1a_spec_def
      fnv1a_loop_from [OF assms, of 0 FNV_OFFSET "emit (Call_fnv1a data len) s", simplified]
    by (simp add: emit_def min.commute)
qed

section \<open>The two ways through the transmit hook\<close>

lemma url_token_eq_take:
  "url_token pkt us = take (length (url_token pkt us)) (drop us pkt)"
proof -
  let ?xs = "drop us pkt"
  let ?tw = "takeWhile (\<lambda>c. \<not> is_delim c) ?xs"
  have "?tw = take (length ?tw) ?xs" by (rule takeWhile_eq_take)
  then have "take MAX_URL_LEN ?tw = take (min MAX_URL_LEN (length ?tw)) ?xs"
    by (metis take_take)
  moreover have "length (take MAX_URL_LEN ?tw) = min MAX_URL_LEN (length ?tw)"
    by (simp add: min.commute)
  ultimately show ?thesis by (simp add: url_token_def)
qed

lemma url_token_length: "length (url_token pkt us) \<le> MAX_URL_LEN"
  by (simp add: url_token_def)

lemma url_token_fits: "us + length (url_token pkt us) \<le> length pkt \<or> url_token pkt us = []"
proof -
  have "length (takeWhile (\<lambda>c. \<not> is_delim c) (drop us pkt)) \<le> length (drop us pkt)"
    by (rule length_takeWhile_le)
  then have "length (url_token pkt us) \<le> length pkt - us"
    by (simp add: url_token_def)
  then show ?thesis by (cases "us \<le> length pkt") auto
qed

lemma url_scan_eq:
  "url_scan pkt us (length pkt) 0 0 s =
     Some (length (url_token pkt us), s\<lparr>trace := trace s @ byte_loads us 0 (url_bytes_read pkt us)\<rparr>)"
  by (simp add: url_scan_from tok_from_def read_from_def url_token_def url_bytes_read_def)

lemma fnv1a_hash_url:
  assumes "url_token pkt us \<noteq> []"
  shows "fnv1a_hash pkt us (of_nat (length (url_token pkt us))) s =
     Some (fnv1a_spec (url_token pkt us),
           s\<lparr>trace := trace s @ Call_fnv1a us (of_nat (length (url_token pkt us)))
                                # byte_loads us 0 (length (url_token pkt us))\<rparr>)"
proof -
  let ?n = "length (url_token pkt us)"
  have n: "?n \<le> MAX_URL_LEN" by (rule url_token_length)
  then have u: "unat (of_nat ?n :: u32) = ?n"
    by (simp add: unat_of_nat)
  have m: "min 256 ?n = ?n" using n by simp
  have f: "us + ?n \<le> length pkt" using url_token_fits [of us pkt] assms by simp
  have "us + min 256 (unat (of_nat ?n :: u32)) \<le> length pkt" using f by (simp add: u m)
  from fnv1a_hash_eq [OF this, of s] show ?thesis
    using url_token_eq_take [of pkt us] by (simp add: u m)
qed

lemma tc_bypass:
  assumes "\<not> tc_get_request e pkt"
  shows "\<exists>evs. (\<forall>ev \<in> set evs. in_bounds pkt ev) \<and>
           tc_http_cache e hc now pkt (start st) =
           Some (TC_ACT_OK, \<lparr>stats = st(0 := st 0 + 1),
                            trace = Lookup_stats 0 # Incr_slot 0 # evs\<rparr>)"
  using assms
  by (auto simp add: tc_http_cache_def array_lookup_def parse_http_start_def incr_slot_def
        field_reads Let_def load_eq_htons ntohs_load packet_fields tc_get_request_def in_bounds_def not_le
        load_def start_def emit_def simp del: le_bytes.simps)

lemma tc_get:
  assumes "tc_get_request e pkt"
  shows "tc_http_cache e hc now pkt (start st) =
     Some (let url_start = payload_off pkt + 4; tok = url_token pkt url_start;
               s1 = \<lparr>stats = st(0 := st 0 + 1),
                     trace = [Lookup_stats 0, Incr_slot 0, Load 12 2, Load 23 1, Load 14 1,
                              Load (tcp_off pkt + 2) 2, Load (tcp_off pkt + 12) 1,
                              Load (payload_off pkt) 4]
                             @ byte_loads url_start 0 (url_bytes_read pkt url_start)\<rparr>
           in if tok = [] then (TC_ACT_OK, s1)
              else tc_cache_check hc now
                     \<lparr>hash = fnv1a_spec tok, method = 1, port = tcp_dport pkt, padding = 0\<rparr>
                     (s1\<lparr>trace := trace s1 @ Call_fnv1a url_start (of_nat (length tok))
                                           # byte_loads url_start 0 (length tok)\<rparr>))"
  using assms unfolding tc_get_request_def
  by (elim conjE disjE;
      simp add: tc_http_cache_def array_lookup_def parse_http_start_def incr_slot_def
        field_reads Let_def load_eq_htons ntohs_load packet_fields
        load_def start_def emit_def url_scan_eq fnv1a_hash_url del: le_bytes.simps)

section \<open>Counters and traces\<close>

lemma in_bounds_Load: "in_bounds pkt ev \<Longrightarrow> \<exists>off n. ev = Load off n \<and> off + n \<le> length pkt"
  by (cases ev) (simp_all add: in_bounds_def)

lemma unat_incr:
  fixes x :: u64
  assumes "x \<noteq> - 1"
  shows "unat (x + 1) = unat x + 1"
proof -
  have "x + 1 \<noteq> 0" using assms max_word_wrap by blast
  then have "1 + x \<noteq> 0" by (simp add: add.commute)
  from unatSuc [OF this] show ?thesis by (simp add: add.commute)
qed

lemma unat_incr_le: "unat (x + 1) \<le> unat x + 1" for x :: u64
  by (cases "x = - 1") (simp_all add: unat_incr)

lemma notin_byte_loads [simp]:
  "Lookup_cache k \<notin> set (byte_loads b i j)" "Call_fnv1a d l \<notin> set (byte_loads b i j)"
  "Incr_slot q \<notin> set (byte_loads b i j)" "Lookup_stats q \<notin> set (byte_loads b i j)"
  "Ktime_get_ns \<notin> set (byte_loads b i j)"
  by (auto simp add: byte_loads_def)

lemma count_byte_loads [simp]:
  "count_list (byte_loads b i j) (Lookup_cache k) = 0"
  "count_list (byte_loads b i j) (Incr_slot q) = 0"
  by (simp_all add: count_list_0_iff)

section \<open>The URL token\<close>

lemma url_token_no_delim:
  assumes "c \<in> set (url_token pkt us)"
  shows "\<not> is_delim c"
proof -
  from assms have "c \<in> set (takeWhile (\<lambda>c. \<not> is_delim c) (drop us pkt))"
    unfolding url_token_def by (rule in_set_takeD)
  then show ?thesis by (rule set_takeWhileD [THEN conjunct2])
qed

lemma url_token_maximal:
  assumes "length (url_token pkt us) < MAX_URL_LEN"
  shows "length pkt \<le> us + length (url_token pkt us) \<or> is_delim (pkt ! (us + length (url_token pkt us)))"
proof -
  let ?xs = "drop us pkt"
  let ?tw = "takeWhile (\<lambda>c. \<not> is_delim c) ?xs"
  have l: "length (url_token pkt us) = length ?tw"
    using assms by (simp add: url_token_def min_def split: if_splits)
  show ?thesis
  proof (cases "length ?tw < length ?xs")
    case True
    from nth_length_takeWhile [OF True] have "is_delim (?xs ! length ?tw)" by simp
    moreover have "us + length ?tw \<le> length pkt" using True by simp
    ultimately show ?thesis by (simp add: l)
  next
    case False
    then have "length pkt - us \<le> length ?tw" by simp
    then have "length pkt \<le> us + length ?tw" by arith
    then show ?thesis by (simp add: l)
  qed
qed

lemma url_token_full:
  assumes "MAX_URL_LEN \<le> length pkt - us" and "\<forall>j < MAX_URL_LEN. \<not> is_delim (pkt ! (us + j))"
  shows "length (url_token pkt us) = MAX_URL_LEN"
proof -
  have "MAX_URL_LEN \<le> length (takeWhile (\<lambda>c. \<not> is_delim c) (drop us pkt))"
  proof (rule length_takeWhile_less_P_nth)
    fix i assume "i < MAX_URL_LEN"
    then show "\<not> is_delim (drop us pkt ! i)" using assms by simp
  next
    show "MAX_URL_LEN \<le> length (drop us pkt)" using assms(1) by simp
  qed
  then show ?thesis by (simp add: url_token_def)
qed

lemma url_token_past_end: "length pkt \<le> us \<Longrightarrow> url_token pkt us = []"
  by (simp add: url_token_def)

lemma url_bytes_read_fits:
  "us + url_bytes_read pkt us \<le> length pkt \<or> url_bytes_read pkt us = 0"
  using url_token_fits [of us pkt]
  by (auto simp add: url_bytes_read_def Let_def)

lemma Load_in_byte_loads:
  "Load off n \<in> set (byte_loads b i j) \<Longrightarrow> n = 1 \<and> b + i \<le> off \<and> off < b + j"
  by (auto simp add: byte_loads_def)

lemma byte_loads_0: "byte_loads b 0 0 = []"
  by (simp add: byte_loads_def)

lemma byte_loads_Suc: "byte_loads b 0 (Suc n) = byte_loads b 0 n @ [Load (b + n) 1]"
  by (simp add: byte_loads_def)

section \<open>Bounds of the loads of a run\<close>

lemma xdp_loads_in_bounds:
  "\<exists>v s. xdp_router_prog e rm pkt (start st) = Some (v, s) \<and>
       (\<forall>off n. Load off n \<in> set (trace s) \<longrightarrow> off + n \<le> length pkt) \<and>
       (\<not> xdp_headers_fit pkt \<longrightarrow> v = XDP_PASS \<and> (\<forall>k. Lookup_route k \<notin> set (trace s)))"
proof (cases "ipv4_tcp_packet pkt")
  case False
  from xdp_bypass [OF False, of e rm st] obtain evs where
    b: "\<forall>ev \<in> set evs. in_bounds pkt ev" and
    r: "xdp_router_prog e rm pkt (start st) =
           Some (XDP_PASS, \<lparr>stats = st\<lparr>packets_total := packets_total st + 1\<rparr>,
                           trace = Lookup_stats 0 # Incr_field Packets_total # evs\<rparr>)"
    by blast
  have "\<forall>off n. Load off n \<in> set evs \<longrightarrow> off + n \<le> length pkt"
    using b in_bounds_Load by blast
  moreover have "\<forall>k. Lookup_route k \<notin> set evs"
    using b in_bounds_Load by blast
  ultimately show ?thesis using r by simp
next
  case True
  then have "xdp_headers_fit pkt" by (simp add: ipv4_tcp_packet_def xdp_headers_fit_def)
  moreover have "14 \<le> length pkt" "34 \<le> length pkt" "tcp_off pkt + 20 \<le> length pkt"
    using True by (simp_all add: ipv4_tcp_packet_def)
  ultimately show ?thesis
    by (auto simp add: xdp_lookup [OF True] xdp_dispatch_def emit_def split: option.splits)
qed

lemma tc_loads_in_bounds:
  "\<exists>s. tc_http_cache e hc now pkt (start sl) = Some (TC_ACT_OK, s) \<and>
       (\<forall>off n. Load off n \<in> set (trace s) \<longrightarrow> off + n \<le> length pkt) \<and>
       (\<not> (tc_headers_fit pkt \<and> payload_off pkt + 4 < length pkt) \<longrightarrow>
          (\<forall>k. Lookup_cache k \<notin> set (trace s)))"
proof (cases "tc_get_request e pkt")
  case False
  from tc_bypass [OF False, of hc now sl] obtain evs where
    b: "\<forall>ev \<in> set evs. in_bounds pkt ev" and
    r: "tc_http_cache e hc now pkt (start sl) =
           Some (TC_ACT_OK, \<lparr>stats = sl(0 := sl 0 + 1),
                            trace = Lookup_stats 0 # Incr_slot 0 # evs\<rparr>)"
    by blast
  have "\<forall>off n. Load off n \<in> set evs \<longrightarrow> off + n \<le> length pkt"
    using b in_bounds_Load by blast
  moreover have "\<forall>k. Lookup_cache k \<notin> set evs"
    using b in_bounds_Load by blast
  ultimately show ?thesis using r by simp
next
  case True
  let ?us = "payload_off pkt + 4"
  have fit: "14 \<le> length pkt" "34 \<le> length pkt" "tcp_off pkt + 20 \<le> length pkt"
    "payload_off pkt + 4 \<le> length pkt"
    using True by (simp_all add: tc_get_request_def)
  have hf: "tc_headers_fit pkt" using fit by (simp add: tc_headers_fit_def)
  have scan: "\<And>off n. Load off n \<in> set (byte_loads ?us 0 (url_bytes_read pkt ?us)) \<Longrightarrow>
                 off + n \<le> length pkt"
    using url_bytes_read_fits [of ?us pkt] by (auto dest!: Load_in_byte_loads)
  have hsh: "\<And>off n. Load off n \<in> set (byte_loads ?us 0 (length (url_token pkt ?us))) \<Longrightarrow>
                 off + n \<le> length pkt"
    using url_token_fits [of ?us pkt] by (auto dest!: Load_in_byte_loads)
  have emp: "\<not> payload_off pkt + 4 < length pkt \<Longrightarrow> url_token pkt ?us = []"
    by (simp add: url_token_past_end)
  show ?thesis
    using fit hf scan hsh emp
    by (auto simp add: tc_get [OF True] tc_cache_check_def Let_def array_lookup_def
          incr_slot_def emit_def split: option.splits)
qed

section \<open>The concrete requests\<close>

lemma get_request_is_get: "tc_get_request e (get_request e)"
  by (cases e)
     (simp_all add: tc_get_request_def get_request_def frame_tcp_def get_token_def url_ab_line_def
        packet_fields load_word_def)

lemma get_request_token:
  "payload_off (get_request e) = 54"
  "url_token (get_request e) 58 = [0x2f, 0x61, 0x2f, 0x62]"
  "tcp_dport (get_request e) = 80"
  by (cases e;
      simp add: get_request_def frame_tcp_def get_token_def url_ab_line_def packet_fields
        load_word_def url_token_def is_delim_def)+

lemma fnv1a_ab: "fnv1a_spec [0x2f, 0x61, 0x2f, 0x62] = 3908606180096663756"
  by (simp add: fnv1a_spec_def fnv1a_step_def)

lemma fnv1a_abc: "fnv1a_spec [0x2f, 0x61, 0x62, 0x63] = 3982406500079243962"
  by (simp add: fnv1a_spec_def fnv1a_step_def)

lemma get_truncated_facts:
  "tc_get_request e (get_truncated e)"
  "length (get_truncated e) = 62"
  "tcp_off (get_truncated e) = 34"
  "payload_off (get_truncated e) = 54"
  "tcp_dport (get_truncated e) = 80"
  "url_token (get_truncated e) 58 = [0x2f, 0x61, 0x62, 0x63]"
  by (cases e;
      simp add: tc_get_request_def get_truncated_def frame_tcp_def get_token_def url_abc_def
        packet_fields load_word_def url_token_def is_delim_def)+

lemma get_request_v5_facts:
  "tc_get_request e (get_request_v5 e)"
  "length (get_request_v5 e) = 73"
  "tcp_off (get_request_v5 e) = 34"
  "payload_off (get_request_v5 e) = 54"
  "tcp_dport (get_request_v5 e) = 80"
  "url_token (get_request_v5 e) 58 = [0x2f, 0x61, 0x2f, 0x62]"
  "ip_vers (get_request_v5 e) = 5"
  "ethertype (get_request_v5 e) = 0x0800"
  by (cases e;
      simp add: tc_get_request_def get_request_v5_def frame_tcp_def get_token_def url_ab_line_def
        packet_fields load_word_def url_token_def is_delim_def)+

lemma get_truncated_run:
  "events (tc_http_cache e no_cache 0 (get_truncated e) (start zero_slots)) =
     Some [Lookup_stats 0, Incr_slot 0, Load 12 2, Load 23 1, Load 14 1, Load 36 2, Load 46 1,
           Load 54 4, Load 58 1, Load 59 1, Load 60 1, Load 61 1,
           Call_fnv1a 58 4, Load 58 1, Load 59 1, Load 60 1, Load 61 1,
           Lookup_cache \<lparr>hash = 3982406500079243962, method = 1, port = 80, padding = 0\<rparr>]"
  by (simp add: tc_get [OF get_truncated_facts(1)] get_truncated_facts(2-) fnv1a_abc
        byte_loads_0 byte_loads_Suc
        url_bytes_read_def tc_cache_check_def no_cache_def events_def emit_def)

lemma get_request_v5_run:
  "events (tc_http_cache e no_cache 0 (get_request_v5 e) (start zero_slots)) =
     Some [Lookup_stats 0, Incr_slot 0, Load 12 2, Load 23 1, Load 14 1, Load 36 2, Load 46 1,
           Load 54 4, Load 58 1, Load 59 1, Load 60 1, Load 61 1, Load 62 1,
           Call_fnv1a 58 4, Load 58 1, Load 59 1, Load 60 1, Load 61 1,
           Lookup_cache \<lparr>hash = 3908606180096663756, method = 1, port = 80, padding = 0\<rparr>]"
  by (simp add: tc_get [OF get_request_v5_facts(1)] get_request_v5_facts(2-) fnv1a_ab
        byte_loads_0 byte_loads_Suc
        url_bytes_read_def tc_cache_check_def no_cache_def events_def emit_def)

lemma get_request_v5_xdp:
  "events (xdp_router_prog e (route_to 1) (get_request_v5 e) (start zero_stats)) =
     Some [Lookup_stats 0, Incr_field Packets_total, Load 12 2, Load 14 1]"
  using get_request_v5_facts(2,7,8)
  by (simp add: xdp_router_prog_def array_lookup_def parse_eth_def parse_ip_def field_reads
        Let_def load_eq_htons packet_fields start_def emit_def events_def del: le_bytes.simps)

lemma get_empty_url_facts:
  "tc_get_request e (get_empty_url e)"
  "payload_off (get_empty_url e) = 54"
  "url_token (get_empty_url e) 58 = []"
  by (cases e;
      simp add: tc_get_request_def get_empty_url_def frame_tcp_def get_token_def
        packet_fields load_word_def url_token_def is_delim_def)+

lemma length_frame_tcp: "length (frame_tcp v p) = 54"
  by (simp add: frame_tcp_def)

lemma length_get_token: "length (get_token e) = 4"
  by (cases e) (simp_all add: get_token_def)

lemma get_long_url_facts:
  "tc_get_request e (get_long_url e)"
  "payload_off (get_long_url e) = 54"
  "length (get_long_url e) = 258"
  "length (url_token (get_long_url e) 58) = 192"
  "\<forall>j < 192. \<not> is_delim (get_long_url e ! (58 + j))"
proof -
  have h: "take 58 (get_long_url e) = frame_tcp 0x45 80 @ get_token e"
    by (simp add: get_long_url_def length_frame_tcp length_get_token)
  have d: "drop 58 (get_long_url e) = replicate 200 0x61"
    by (simp add: get_long_url_def length_frame_tcp length_get_token)
  have n: "\<And>i. i < 58 \<Longrightarrow> get_long_url e ! i = (frame_tcp 0x45 80 @ get_token e) ! i"
    by (metis h nth_take)
  have p: "payload_off (get_long_url e) = 54" "tcp_off (get_long_url e) = 34"
  proof -
    have b: "get_long_url e ! 14 = 0x45" "get_long_url e ! 46 = 0x50"
      by (simp_all add: n) (simp_all add: frame_tcp_def nth_append)
    show "tcp_off (get_long_url e) = 34" by (simp add: tcp_off_def b)
    then show "payload_off (get_long_url e) = 54" by (simp add: payload_off_def b)
  qed
  show "payload_off (get_long_url e) = 54" by (rule p)
  show len: "length (get_long_url e) = 258"
    by (simp add: get_long_url_def length_frame_tcp length_get_token)
  show "length (url_token (get_long_url e) 58) = 192"
    by (simp add: url_token_def d is_delim_def takeWhile_replicate)
  show "\<forall>j < 192. \<not> is_delim (get_long_url e ! (58 + j))"
    by (simp add: get_long_url_def nth_append length_frame_tcp length_get_token is_delim_def)
  have t: "take 4 (drop 54 (get_long_url e)) = get_token e"
    by (simp add: get_long_url_def length_frame_tcp length_get_token)
  show "tc_get_request e (get_long_url e)"
  proof -
    have b: "get_long_url e ! 12 = 0x08" "get_long_url e ! 13 = 0x00" "get_long_url e ! 23 = 6"
      "get_long_url e ! 36 = 0" "get_long_url e ! 37 = 80"
      by (simp_all add: n) (simp_all add: frame_tcp_def nth_append)
    have g: "load_word e (get_token e) = (0x47455420 :: u32)"
      by (cases e) (simp_all add: get_token_def load_word_def)
    have f: "ethertype (get_long_url e) = 0x0800" "tcp_dport (get_long_url e) = 80"
      "ip_proto (get_long_url e) = 6"
      by (simp_all add: ethertype_def tcp_dport_def ip_proto_def p b load_word_def)
    show ?thesis
      unfolding tc_get_request_def p t
      by (simp add: f g len)
  qed
qed

lemma ascii_get_request_bytes:
  "length ascii_get_request = 73"
  "ascii_get_request ! 12 = 0x08" "ascii_get_request ! 13 = 0x00"
  "ascii_get_request ! 14 = 0x45" "ascii_get_request ! 23 = 6"
  "ascii_get_request ! 36 = 0" "ascii_get_request ! 37 = 80"
  "ascii_get_request ! 46 = 0x50"
  "take 4 (drop 54 ascii_get_request) = [0x47, 0x45, 0x54, 0x20]"
  by (simp_all add: ascii_get_request_def frame_tcp_def)

lemma ascii_get_request_facts:
  "tc_get_request Big_endian ascii_get_request"
  "tcp_off ascii_get_request = 34"
  "payload_off ascii_get_request = 54"
  "tcp_dport ascii_get_request = 80"
  "url_token ascii_get_request 58 = [0x2f, 0x61, 0x2f, 0x62]"
  "\<not> tc_get_request Little_endian ascii_get_request"
  by (simp_all add: tc_get_request_def ascii_get_request_def frame_tcp_def
        packet_fields load_word_def url_token_def is_delim_def)

section \<open>The counters over a run of invocations\<close>

lemma xdp_invocation:
  "\<exists>v s' evs. xdp_router_prog e rm pkt (start st) = Some (v, s') \<and>
      packets_total (stats s') = packets_total st + 1 \<and>
      trace s' = Lookup_stats 0 # Incr_field Packets_total # evs \<and>
      Incr_field Packets_total \<notin> set evs \<and>
      length (filter (\<lambda>ev. ev \<in> Incr_field ` {Packets_passed, Packets_dropped, Cache_hits}) evs) \<le> 1 \<and>
      (packets_total st \<noteq> - 1 \<and> others_sum st \<le> unat (packets_total st) \<longrightarrow>
         others_sum (stats s') \<le> unat (packets_total (stats s')))"
proof (cases "ipv4_tcp_packet pkt")
  case False
  from xdp_bypass [OF False, of e rm st] obtain evs where
    b: "\<forall>ev \<in> set evs. in_bounds pkt ev" and
    r: "xdp_router_prog e rm pkt (start st) =
           Some (XDP_PASS, \<lparr>stats = st\<lparr>packets_total := packets_total st + 1\<rparr>,
                           trace = Lookup_stats 0 # Incr_field Packets_total # evs\<rparr>)"
    by blast
  have nl: "\<And>ev. ev \<in> set evs \<Longrightarrow> \<exists>off n. ev = Load off n"
    using b in_bounds_Load by blast
  have "Incr_field Packets_total \<notin> set evs" using nl by blast
  moreover have "filter (\<lambda>ev. ev \<in> Incr_field ` {Packets_passed, Packets_dropped, Cache_hits}) evs = []"
    using nl by (auto simp add: filter_empty_conv)
  moreover have "packets_total st \<noteq> - 1 \<Longrightarrow> unat (packets_total st + 1) = unat (packets_total st) + 1"
    by (rule unat_incr)
  ultimately show ?thesis using r
    by (auto simp add: others_sum_def)
next
  case True
  have u: "\<And>x :: u64. unat (x + 1) \<le> unat x + 1"
    by (rule unat_incr_le)
  have t: "packets_total st \<noteq> - 1 \<Longrightarrow> unat (packets_total st + 1) = unat (packets_total st) + 1"
    by (rule unat_incr)
  show ?thesis
    using u [of "packets_passed st"] u [of "packets_dropped st"] t
    by (auto simp add: xdp_lookup [OF True] xdp_dispatch_def emit_def others_sum_def split: option.splits)
qed

lemma xdp_run_counts:
  assumes "unat (packets_total st) + length run < 2 ^ 64"
    and "others_sum st \<le> unat (packets_total st)"
  shows "\<exists>st'. xdp_run e run st = Some st' \<and>
           unat (packets_total st') = unat (packets_total st) + length run \<and>
           others_sum st' \<le> unat (packets_total st')"
  using assms
proof (induction run arbitrary: st)
  case Nil
  then show ?case by simp
next
  case (Cons a run)
  obtain rm pkt where a: "a = (rm, pkt)" by (cases a)
  have "unat (packets_total st) \<noteq> unat (- 1 :: u64)"
    using Cons.prems(1) by (simp add: unsigned_minus_1_eq_mask mask_eq_exp_minus_1)
  then have ne: "packets_total st \<noteq> - 1" by auto
  from xdp_invocation [of e rm pkt st] obtain v s' where
    r: "xdp_router_prog e rm pkt (start st) = Some (v, s')" and
    t: "packets_total (stats s') = packets_total st + 1" and
    i: "others_sum (stats s') \<le> unat (packets_total (stats s'))"
    using ne Cons.prems(2) by blast
  have n: "unat (packets_total (stats s')) = unat (packets_total st) + 1"
    by (simp add: t unat_incr [OF ne])
  have "unat (packets_total (stats s')) + length run < 2 ^ 64"
    using Cons.prems(1) n by simp
  from Cons.IH [OF this i] show ?case
    by (simp add: a r n)
qed

section \<open>The receive hook: route hits and counters\<close>

text \<open>
  Claim C2, as amended. For every IPv4/TCP packet at the receive hook whose route lookup
  returns an entry, the verdict follows the stored action (1: drop, 2: transmit back out,
  anything else: pass) and exactly one counter besides the total is incremented, once:
  \<open>packets_dropped\<close> for drop, \<open>packets_passed\<close> for redirect and for pass alike. The
  program has no counter of its own for redirect.
\<close>

theorem xdp_hit_verdict_and_counter:
  assumes "ipv4_tcp_packet pkt" and "rm (xdp_key e pkt) = Some r"
  shows "\<exists>s'. xdp_router_prog e rm pkt (start st) =
                 Some (if action r = 1 then XDP_DROP else if action r = 2 then XDP_TX else XDP_PASS, s') \<and>
           stats s' = (if action r = 1
                       then st\<lparr>packets_total := packets_total st + 1,
                               packets_dropped := packets_dropped st + 1\<rparr>
                       else st\<lparr>packets_total := packets_total st + 1,
                               packets_passed := packets_passed st + 1\<rparr>) \<and>
           count_list (trace s') (Incr_field Packets_dropped) = (if action r = 1 then 1 else 0) \<and>
           count_list (trace s') (Incr_field Packets_passed) = (if action r = 1 then 0 else 1) \<and>
           count_list (trace s') (Incr_field Cache_hits) = 0"
  using assms
  by (simp add: xdp_lookup xdp_dispatch_def emit_def)

theorem xdp_hit_verdict_and_counter_witness:
  "ipv4_tcp_packet (frame_tcp 0x45 80) \<and>
   route_to 1 (xdp_key Little_endian (frame_tcp 0x45 80)) =
     Some \<lparr>action = 1, backend_ip = 0, backend_port = 0, route_value.padding = [0, 0, 0, 0, 0]\<rparr> \<and>
   outcome (xdp_router_prog Little_endian (route_to 1) (frame_tcp 0x45 80) (start zero_stats)) =
     Some (XDP_DROP, \<lparr>packets_total = 1, packets_passed = 0, packets_dropped = 1, cache_hits = 0\<rparr>)"
  using xdp_hit_verdict_and_counter [of "frame_tcp 0x45 80" "route_to 1" Little_endian
      "\<lparr>action = 1, backend_ip = 0, backend_port = 0, route_value.padding = [0, 0, 0, 0, 0]\<rparr>" zero_stats]
    frame_tcp_ipv4_tcp [of 80]
  by (auto simp add: route_to_def outcome_def zero_stats_def)

text \<open>
  Claim C2 as stated fails: a hit with action redirect and a hit with action pass leave
  the same counters behind, on the same packet. The counter a redirect increments is the
  pass action's counter.
\<close>

theorem xdp_redirect_counts_as_passed:
  "outcome (xdp_router_prog Little_endian (route_to 2) (frame_tcp 0x45 80) (start zero_stats)) =
     Some (XDP_TX, \<lparr>packets_total = 1, packets_passed = 1, packets_dropped = 0, cache_hits = 0\<rparr>) \<and>
   outcome (xdp_router_prog Little_endian (route_to 0) (frame_tcp 0x45 80) (start zero_stats)) =
     Some (XDP_PASS, \<lparr>packets_total = 1, packets_passed = 1, packets_dropped = 0, cache_hits = 0\<rparr>)"
  by (simp add: xdp_lookup [OF frame_tcp_ipv4_tcp] xdp_dispatch_def route_to_def outcome_def
        zero_stats_def emit_def)

text \<open>
  Claim C3. Every invocation of the receive hook, whatever the packet, returns with
  \<open>packets_total\<close> incremented by one; the increment is the first thing the run does
  after looking the counters up, before any load from the packet, and it happens once;
  at most one other counter is incremented in the run. So after any run of fewer than
  2^64 invocations from zeroed counters the total is the number of invocations and bounds
  the sum of the other counters.
\<close>

theorem xdp_total_once_first:
  "(\<exists>v s' evs. xdp_router_prog e rm pkt (start st) = Some (v, s') \<and>
      packets_total (stats s') = packets_total st + 1 \<and>
      trace s' = Lookup_stats 0 # Incr_field Packets_total # evs \<and>
      Incr_field Packets_total \<notin> set evs \<and>
      length (filter (\<lambda>ev. ev \<in> Incr_field ` {Packets_passed, Packets_dropped, Cache_hits}) evs) \<le> 1) \<and>
   (length run < 2 ^ 64 \<longrightarrow>
      (\<exists>st'. xdp_run e run zero_stats = Some st' \<and>
         unat (packets_total st') = length run \<and>
         others_sum st' \<le> unat (packets_total st')))"
proof -
  have "length run < 2 ^ 64 \<Longrightarrow>
      \<exists>st'. xdp_run e run zero_stats = Some st' \<and>
         unat (packets_total st') = length run \<and>
         others_sum st' \<le> unat (packets_total st')"
    using xdp_run_counts [of zero_stats run e]
    by (simp add: zero_stats_def others_sum_def)
  then show ?thesis
    using xdp_invocation [of e rm pkt st] by blast
qed

theorem xdp_total_once_first_witness:
  "length [(no_route, frame_arp), (route_to 1, frame_tcp 0x45 80), (route_to 2, frame_tcp 0x45 80)]
     < (2 :: nat) ^ 64 \<and>
   xdp_run Little_endian
     [(no_route, frame_arp), (route_to 1, frame_tcp 0x45 80), (route_to 2, frame_tcp 0x45 80)] zero_stats =
     Some \<lparr>packets_total = 3, packets_passed = 1, packets_dropped = 1, cache_hits = 0\<rparr>"
proof -
  have a: "xdp_router_prog Little_endian no_route frame_arp (start st) =
             Some (XDP_PASS, \<lparr>stats = st\<lparr>packets_total := packets_total st + 1\<rparr>,
                             trace = [Lookup_stats 0, Incr_field Packets_total, Load 12 2]\<rparr>)" for st
    by (simp add: xdp_router_prog_def array_lookup_def parse_eth_def eth_h_proto_Some
          frame_arp_def load_word_def bpf_htons_def bswap16_def start_def emit_def)
  have r: "xdp_run Little_endian
     [(no_route, frame_arp), (route_to 1, frame_tcp 0x45 80), (route_to 2, frame_tcp 0x45 80)] zero_stats =
     Some \<lparr>packets_total = 3, packets_passed = 1, packets_dropped = 1, cache_hits = 0\<rparr>"
    by (simp add: a xdp_lookup [OF frame_tcp_ipv4_tcp] xdp_dispatch_def route_to_def
          zero_stats_def emit_def)
  show ?thesis
    using xdp_total_once_first [of Little_endian no_route frame_arp zero_stats
      "[(no_route, frame_arp), (route_to 1, frame_tcp 0x45 80), (route_to 2, frame_tcp 0x45 80)]"] r
    by simp
qed

text \<open>
  Claim C10. On a route hit whose stored action byte is neither 1 nor 2, the receive hook
  returns \<^verbatim>\<open>XDP_PASS\<close> with \<open>packets_passed\<close> incremented once (and no drop counted),
  exactly as it does when the entry's action is rewritten to the explicit pass value 0.
\<close>

theorem xdp_hit_other_action_is_pass:
  assumes "ipv4_tcp_packet pkt" and "rm (xdp_key e pkt) = Some r"
    and "action r \<noteq> 1" and "action r \<noteq> 2"
  shows "\<exists>s'. xdp_router_prog e rm pkt (start st) = Some (XDP_PASS, s') \<and>
           stats s' = st\<lparr>packets_total := packets_total st + 1,
                          packets_passed := packets_passed st + 1\<rparr> \<and>
           count_list (trace s') (Incr_field Packets_passed) = 1 \<and>
           count_list (trace s') (Incr_field Packets_dropped) = 0 \<and>
           xdp_router_prog e (rm(xdp_key e pkt \<mapsto> r\<lparr>action := 0\<rparr>)) pkt (start st) =
             Some (XDP_PASS, s')"
  using assms
  by (simp add: xdp_lookup xdp_dispatch_def emit_def)

theorem xdp_hit_other_action_is_pass_witness:
  "ipv4_tcp_packet (frame_tcp 0x45 80) \<and>
   route_to 7 (xdp_key Little_endian (frame_tcp 0x45 80)) =
     Some \<lparr>action = 7, backend_ip = 0, backend_port = 0, route_value.padding = [0, 0, 0, 0, 0]\<rparr> \<and>
   (7 :: u8) \<noteq> 1 \<and> (7 :: u8) \<noteq> 2 \<and>
   outcome (xdp_router_prog Little_endian (route_to 7) (frame_tcp 0x45 80) (start zero_stats)) =
     Some (XDP_PASS, \<lparr>packets_total = 1, packets_passed = 1, packets_dropped = 0, cache_hits = 0\<rparr>)"
  using xdp_hit_other_action_is_pass [of "frame_tcp 0x45 80" "route_to 7" Little_endian
      "\<lparr>action = 7, backend_ip = 0, backend_port = 0, route_value.padding = [0, 0, 0, 0, 0]\<rparr>" zero_stats]
    frame_tcp_ipv4_tcp [of 80]
  by (auto simp add: route_to_def outcome_def zero_stats_def)

section \<open>Bypasses\<close>

text \<open>
  Claim C8. For every packet whose Ethernet protocol field is not 0x0800, both hooks return
  their pass-through verdict; the run consists of the counter update and the load of the
  protocol field, so there is no route lookup and no cache lookup.
\<close>

theorem non_ipv4_passes_without_lookup:
  assumes "14 \<le> length pkt" and "ethertype pkt \<noteq> 0x0800"
  shows "xdp_router_prog e rm pkt (start st) =
           Some (XDP_PASS, \<lparr>stats = st\<lparr>packets_total := packets_total st + 1\<rparr>,
                           trace = [Lookup_stats 0, Incr_field Packets_total, Load 12 2]\<rparr>) \<and>
         tc_http_cache e hc now pkt (start sl) =
           Some (TC_ACT_OK, \<lparr>stats = sl(0 := sl 0 + 1),
                            trace = [Lookup_stats 0, Incr_slot 0, Load 12 2]\<rparr>)"
  using assms
  by (simp add: xdp_router_prog_def tc_http_cache_def array_lookup_def parse_eth_def eth_h_proto_Some
        load_eq_htons ethertype_def incr_slot_def start_def emit_def del: le_bytes.simps)

theorem non_ipv4_passes_without_lookup_witness:
  "14 \<le> length frame_arp \<and> ethertype frame_arp \<noteq> 0x0800 \<and>
   events (xdp_router_prog Little_endian (route_to 1) frame_arp (start zero_stats)) =
     Some [Lookup_stats 0, Incr_field Packets_total, Load 12 2] \<and>
   events (tc_http_cache Little_endian (cached_at 0) 0 frame_arp (start zero_slots)) =
     Some [Lookup_stats 0, Incr_slot 0, Load 12 2]"
proof -
  have h: "14 \<le> length frame_arp" "ethertype frame_arp \<noteq> 0x0800"
    by (simp_all add: frame_arp_def ethertype_def load_word_def)
  show ?thesis
    using h non_ipv4_passes_without_lookup [OF h, of Little_endian "route_to 1" zero_stats "cached_at 0" 0 zero_slots]
    by (simp add: events_def)
qed

text \<open>
  Claim C9. For every IPv4/TCP packet at the transmit hook whose destination port, read in
  network byte order, is none of 80, 8080 and 3000, the hook returns \<^verbatim>\<open>TC_ACT_OK\<close>; the
  run ends with the load of the port: nothing is read at the payload, no fingerprint is
  computed, no cache lookup is made, and only the total slot of the counters changes.
\<close>

theorem other_port_bypasses:
  assumes "ipv4_tcp_packet pkt"
    and "tcp_dport pkt \<noteq> 80" and "tcp_dport pkt \<noteq> 8080" and "tcp_dport pkt \<noteq> 3000"
  shows "tc_http_cache e hc now pkt (start st) =
           Some (TC_ACT_OK, \<lparr>stats = st(0 := st 0 + 1),
                            trace = [Lookup_stats 0, Incr_slot 0, Load 12 2, Load 23 1, Load 14 1,
                                     Load (tcp_off pkt + 2) 2]\<rparr>)"
  using assms
  by (simp add: tc_http_cache_def array_lookup_def incr_slot_def field_reads Let_def load_eq_htons
        ntohs_load packet_fields ipv4_tcp_packet_def start_def emit_def del: le_bytes.simps)

theorem other_port_bypasses_witness:
  "ipv4_tcp_packet (frame_tcp 0x45 22) \<and> tcp_dport (frame_tcp 0x45 22) = 22 \<and>
   tc_outcome (tc_http_cache Little_endian (cached_at 0) 0 (frame_tcp 0x45 22) (start zero_slots)) =
     Some (TC_ACT_OK, 1, 0) \<and>
   events (tc_http_cache Little_endian (cached_at 0) 0 (frame_tcp 0x45 22) (start zero_slots)) =
     Some [Lookup_stats 0, Incr_slot 0, Load 12 2, Load 23 1, Load 14 1, Load 36 2]"
proof -
  have p: "tcp_dport (frame_tcp 0x45 22) = 22" "tcp_off (frame_tcp 0x45 22) = 34"
    by (simp_all add: frame_tcp_def packet_fields load_word_def)
  have h: "tcp_dport (frame_tcp 0x45 22) \<noteq> 80" "tcp_dport (frame_tcp 0x45 22) \<noteq> 8080"
    "tcp_dport (frame_tcp 0x45 22) \<noteq> 3000"
    by (simp_all add: p)
  show ?thesis
    using other_port_bypasses [OF frame_tcp_ipv4_tcp h, of Little_endian "cached_at 0" 0 zero_slots]
      frame_tcp_ipv4_tcp [of 22] p
    by (simp add: events_def tc_outcome_def zero_slots_def)
qed

section \<open>The transmit hook: URL, fingerprint and cache\<close>

text \<open>
  The URL scan on the packets that pass the hook's own method test, on either target.
  The URL token starts 4 bytes after the payload start; it is a run of at most 192 bytes
  without space, carriage return or line feed, and when it is shorter than 192 bytes it
  is followed by a delimiter or by the end of the buffer (so with 192 delimiter-free bytes
  available it is exactly 192 bytes long). If the token is empty the hook returns
  \<^verbatim>\<open>TC_ACT_OK\<close> with only the total slot changed, without calling the fingerprint
  function and without a cache lookup; otherwise the fingerprint function is called on
  exactly this token and the cache is looked up under its fingerprint.
\<close>

lemma url_token_extraction:
  assumes "tc_get_request e pkt"
  shows "\<exists>s'. tc_http_cache e hc now pkt (start st) = Some (TC_ACT_OK, s') \<and>
     (let url_start = payload_off pkt + 4; tok = url_token pkt url_start in
        tok = take (length tok) (drop url_start pkt) \<and>
        length tok \<le> 192 \<and>
        (\<forall>c \<in> set tok. \<not> is_delim c) \<and>
        (length tok < 192 \<longrightarrow>
           length pkt \<le> url_start + length tok \<or> is_delim (pkt ! (url_start + length tok))) \<and>
        (192 \<le> length pkt - url_start \<and> (\<forall>j < 192. \<not> is_delim (pkt ! (url_start + j))) \<longrightarrow>
           length tok = 192) \<and>
        (tok = [] \<longrightarrow>
           stats s' = st(0 := st 0 + 1) \<and> (\<forall>d l. Call_fnv1a d l \<notin> set (trace s')) \<and>
           (\<forall>k. Lookup_cache k \<notin> set (trace s'))) \<and>
        (tok \<noteq> [] \<longrightarrow>
           Call_fnv1a url_start (of_nat (length tok)) \<in> set (trace s') \<and>
           Lookup_cache \<lparr>hash = fnv1a_spec tok, method = 1, port = tcp_dport pkt, padding = 0\<rparr>
             \<in> set (trace s')))"
proof -
  let ?us = "payload_off pkt + 4"
  let ?tok = "url_token pkt ?us"
  have a: "?tok = take (length ?tok) (drop ?us pkt)" by (rule url_token_eq_take)
  have b: "length ?tok \<le> 192" by (rule url_token_length)
  have c: "\<forall>c \<in> set ?tok. \<not> is_delim c" using url_token_no_delim by blast
  have d: "length ?tok < 192 \<longrightarrow>
             length pkt \<le> ?us + length ?tok \<or> is_delim (pkt ! (?us + length ?tok))"
    using url_token_maximal by blast
  have f: "192 \<le> length pkt - ?us \<and> (\<forall>j < 192. \<not> is_delim (pkt ! (?us + j))) \<longrightarrow> length ?tok = 192"
    using url_token_full by blast
  have g: "\<exists>s'. tc_http_cache e hc now pkt (start st) = Some (TC_ACT_OK, s') \<and>
        (?tok = [] \<longrightarrow>
           stats s' = st(0 := st 0 + 1) \<and> (\<forall>d l. Call_fnv1a d l \<notin> set (trace s')) \<and>
           (\<forall>k. Lookup_cache k \<notin> set (trace s'))) \<and>
        (?tok \<noteq> [] \<longrightarrow>
           Call_fnv1a ?us (of_nat (length ?tok)) \<in> set (trace s') \<and>
           Lookup_cache \<lparr>hash = fnv1a_spec ?tok, method = 1, port = tcp_dport pkt, padding = 0\<rparr>
             \<in> set (trace s'))"
    by (auto simp add: tc_get [OF assms] tc_cache_check_def Let_def array_lookup_def
          incr_slot_def emit_def split: option.splits)
  show ?thesis
    unfolding Let_def using a b c d f g by blast
qed

lemma url_token_extraction_examples:
  "tc_get_request Big_endian (get_request Big_endian) \<and>
   payload_off (get_request Big_endian) + 4 = 58 \<and>
   url_token (get_request Big_endian) 58 = [0x2f, 0x61, 0x2f, 0x62] \<and>
   is_delim (get_request Big_endian ! 62) \<and>
   (\<exists>s'. tc_http_cache Big_endian no_cache 0 (get_request Big_endian) (start zero_slots) = Some (TC_ACT_OK, s') \<and>
      Call_fnv1a 58 4 \<in> set (trace s') \<and>
      Lookup_cache \<lparr>hash = 3908606180096663756, method = 1, port = 80, padding = 0\<rparr> \<in> set (trace s')) \<and>
   tc_get_request Little_endian (get_empty_url Little_endian) \<and>
   url_token (get_empty_url Little_endian) (payload_off (get_empty_url Little_endian) + 4) = [] \<and>
   (\<exists>s'. tc_http_cache Little_endian (cached_at 0) 0 (get_empty_url Little_endian) (start zero_slots) = Some (TC_ACT_OK, s') \<and>
      stats s' = zero_slots(0 := 1) \<and> (\<forall>k. Lookup_cache k \<notin> set (trace s'))) \<and>
   tc_get_request Little_endian (get_long_url Little_endian) \<and>
   192 \<le> length (get_long_url Little_endian) - (payload_off (get_long_url Little_endian) + 4) \<and>
   take 192 (drop (payload_off (get_long_url Little_endian) + 4) (get_long_url Little_endian)) =
     replicate 192 0x61 \<and>
   (\<exists>s'. tc_http_cache Little_endian no_cache 0 (get_long_url Little_endian) (start zero_slots) = Some (TC_ACT_OK, s') \<and>
      Call_fnv1a 58 192 \<in> set (trace s'))"
proof -
  have d: "is_delim (get_request Big_endian ! 62)"
    by (simp add: get_request_def frame_tcp_def get_token_def url_ab_line_def is_delim_def)
  have a: "\<exists>s'. tc_http_cache Big_endian no_cache 0 (get_request Big_endian) (start zero_slots) = Some (TC_ACT_OK, s') \<and>
      Call_fnv1a 58 4 \<in> set (trace s') \<and>
      Lookup_cache \<lparr>hash = 3908606180096663756, method = 1, port = 80, padding = 0\<rparr> \<in> set (trace s')"
    using url_token_extraction [OF get_request_is_get, of Big_endian no_cache 0 zero_slots]
    by (auto simp add: Let_def get_request_token fnv1a_ab)
  have b: "\<exists>s'. tc_http_cache Little_endian (cached_at 0) 0 (get_empty_url Little_endian) (start zero_slots) = Some (TC_ACT_OK, s') \<and>
      stats s' = zero_slots(0 := 1) \<and> (\<forall>k. Lookup_cache k \<notin> set (trace s'))"
    using url_token_extraction [OF get_empty_url_facts(1), of Little_endian "cached_at 0" 0 zero_slots]
    by (auto simp add: Let_def get_empty_url_facts zero_slots_def)
  have c: "\<exists>s'. tc_http_cache Little_endian no_cache 0 (get_long_url Little_endian) (start zero_slots) = Some (TC_ACT_OK, s') \<and>
      Call_fnv1a 58 192 \<in> set (trace s')"
    using url_token_extraction [OF get_long_url_facts(1), of Little_endian no_cache 0 zero_slots]
      get_long_url_facts(5) [of Little_endian]
    by (auto simp add: Let_def get_long_url_facts(2-4))
  have t: "take 192 (drop 58 (get_long_url Little_endian)) = replicate 192 0x61"
    by (simp add: get_long_url_def length_frame_tcp length_get_token)
  show ?thesis
    using a b c d t get_request_is_get [of Big_endian]
    by (simp add: get_request_token get_empty_url_facts get_long_url_facts(1-4))
qed

text \<open>
  Claim C6 does not hold of the little-endian build. The payload of the request
  \<^verbatim>\<open>"GET /a/b HTTP/1.1\r\n"\<close> starts with the bytes 47 45 54 20, and the URL token 4 bytes
  after the payload start is \<^verbatim>\<open>"/a/b"\<close>. \<^verbatim>\<open>parse_http_start\<close> hands the raw 32-bit load of
  the method token to the comparison with \<^verbatim>\<open>HTTP_GET\<close> (0x47455420); on the little-endian
  target the load is 0x20544547, the method is taken for unknown, and the run ends with
  the load of the method token: no URL byte is read, the fingerprint function is not
  called and the cache is not looked up. On the big-endian target the same request is
  scanned up to the space, its four URL bytes are fingerprinted and the cache is looked
  up. The 16-bit protocol and port fields go through \<^verbatim>\<open>bpf_htons\<close> and \<^verbatim>\<open>bpf_ntohs\<close>;
  the method token goes through no conversion.
\<close>

theorem ascii_get_not_scanned_little_endian:
  "take 4 (drop (payload_off ascii_get_request) ascii_get_request) = [0x47, 0x45, 0x54, 0x20] \<and>
   url_token ascii_get_request (payload_off ascii_get_request + 4) = [0x2f, 0x61, 0x2f, 0x62] \<and>
   events (tc_http_cache Little_endian (cached_at 0) 0 ascii_get_request (start zero_slots)) =
     Some [Lookup_stats 0, Incr_slot 0, Load 12 2, Load 23 1, Load 14 1, Load 36 2, Load 46 1,
           Load 54 4] \<and>
   events (tc_http_cache Big_endian (cached_at 0) 0 ascii_get_request (start zero_slots)) =
     Some [Lookup_stats 0, Incr_slot 0, Load 12 2, Load 23 1, Load 14 1, Load 36 2, Load 46 1,
           Load 54 4, Load 58 1, Load 59 1, Load 60 1, Load 61 1, Load 62 1,
           Call_fnv1a 58 4, Load 58 1, Load 59 1, Load 60 1, Load 61 1,
           Lookup_cache \<lparr>hash = 3908606180096663756, method = 1, port = 80, padding = 0\<rparr>,
           Ktime_get_ns, Lookup_stats 1, Incr_slot 1]"
proof -
  have le: "events (tc_http_cache Little_endian (cached_at 0) 0 ascii_get_request (start zero_slots)) =
     Some [Lookup_stats 0, Incr_slot 0, Load 12 2, Load 23 1, Load 14 1, Load 36 2, Load 46 1,
           Load 54 4]"
    by (simp add: tc_http_cache_def array_lookup_def incr_slot_def parse_http_start_def load_def
          field_reads Let_def bpf_htons_def bpf_ntohs_def bswap16_def ascii_get_request_bytes
          load_word_def start_def emit_def events_def)
  have be: "events (tc_http_cache Big_endian (cached_at 0) 0 ascii_get_request (start zero_slots)) =
     Some [Lookup_stats 0, Incr_slot 0, Load 12 2, Load 23 1, Load 14 1, Load 36 2, Load 46 1,
           Load 54 4, Load 58 1, Load 59 1, Load 60 1, Load 61 1, Load 62 1,
           Call_fnv1a 58 4, Load 58 1, Load 59 1, Load 60 1, Load 61 1,
           Lookup_cache \<lparr>hash = 3908606180096663756, method = 1, port = 80, padding = 0\<rparr>,
           Ktime_get_ns, Lookup_stats 1, Incr_slot 1]"
    by (simp add: tc_get [OF ascii_get_request_facts(1)] ascii_get_request_facts(2-5)
          ascii_get_request_bytes(1) fnv1a_ab byte_loads_0 byte_loads_Suc url_bytes_read_def
          tc_cache_check_def cached_at_def array_lookup_def incr_slot_def events_def emit_def)
  show ?thesis
    by (simp add: le be ascii_get_request_facts ascii_get_request_bytes)
qed

text \<open>
  Claim C7. \<^verbatim>\<open>fnv1a_hash\<close>, whenever the bytes it reads lie in memory, returns the
  64-bit FNV-1a fold (offset basis 0xcbf29ce484222325, prime 0x100000001b3) of at most the
  first 256 bytes of its input. The value depends on the input bytes only: equal byte
  sequences give equal values, and so do two inputs of at least 256 bytes that agree on
  their first 256 bytes.
\<close>

theorem fnv1a_hash_prefix_256:
  assumes "data + min 256 (unat len) \<le> length mem"
    and "data' + min 256 (unat len') \<le> length mem'"
  shows "map_option fst (fnv1a_hash mem data len s) =
           Some (fold (\<lambda>b h. (h XOR ucast b) * 0x100000001b3)
                   (take 256 (take (unat len) (drop data mem))) 0xcbf29ce484222325) \<and>
         (take (unat len) (drop data mem) = take (unat len') (drop data' mem') \<longrightarrow>
            map_option fst (fnv1a_hash mem data len s) = map_option fst (fnv1a_hash mem' data' len' s')) \<and>
         (256 \<le> unat len \<and> 256 \<le> unat len' \<and>
          take 256 (drop data mem) = take 256 (drop data' mem') \<longrightarrow>
            map_option fst (fnv1a_hash mem data len s) = map_option fst (fnv1a_hash mem' data' len' s'))"
proof -
  have f: "fnv1a_step = (\<lambda>b h. (h XOR ucast b) * 0x100000001b3)"
    by (simp add: fnv1a_step_def fun_eq_iff)
  have a: "map_option fst (fnv1a_hash mem data len s) =
             Some (fnv1a_spec (take (unat len) (drop data mem)))"
    by (simp add: fnv1a_hash_eq [OF assms(1)])
  have b: "map_option fst (fnv1a_hash mem' data' len' s') =
             Some (fnv1a_spec (take (unat len') (drop data' mem')))"
    by (simp add: fnv1a_hash_eq [OF assms(2)])
  have c: "256 \<le> unat len \<Longrightarrow> fnv1a_spec (take (unat len) (drop data mem)) = fnv1a_spec (take 256 (drop data mem))"
    by (simp add: fnv1a_spec_def min_def)
  have d: "256 \<le> unat len' \<Longrightarrow> fnv1a_spec (take (unat len') (drop data' mem')) = fnv1a_spec (take 256 (drop data' mem'))"
    by (simp add: fnv1a_spec_def min_def)
  show ?thesis
    using c d by (auto simp add: a b) (simp add: fnv1a_spec_def f)
qed

theorem fnv1a_hash_prefix_256_witness:
  "0 + min 256 (unat (257 :: u32)) \<le> length bytes_a \<and>
   0 + min 256 (unat (258 :: u32)) \<le> length bytes_b \<and>
   256 \<le> unat (257 :: u32) \<and> 256 \<le> unat (258 :: u32) \<and>
   take 256 (drop 0 bytes_a) = take 256 (drop 0 bytes_b) \<and>
   bytes_a \<noteq> bytes_b \<and>
   map_option fst (fnv1a_hash bytes_a 0 257 (start zero_slots)) =
   map_option fst (fnv1a_hash bytes_b 0 258 (start zero_slots)) \<and>
   1 + min 256 (unat (2 :: u32)) \<le> length bytes_c \<and>
   1 + min 256 (unat (2 :: u32)) \<le> length bytes_d \<and>
   take (unat (2 :: u32)) (drop 1 bytes_c) = take (unat (2 :: u32)) (drop 1 bytes_d) \<and>
   map_option fst (fnv1a_hash bytes_c 1 2 (start zero_slots)) =
   map_option fst (fnv1a_hash bytes_d 1 2 (start zero_stats))"
proof -
  have h: "0 + min 256 (unat (257 :: u32)) \<le> length bytes_a"
    "0 + min 256 (unat (258 :: u32)) \<le> length bytes_b"
    by (simp_all add: bytes_a_def bytes_b_def)
  have k: "1 + min 256 (unat (2 :: u32)) \<le> length bytes_c"
    "1 + min 256 (unat (2 :: u32)) \<le> length bytes_d"
    by (simp_all add: bytes_c_def bytes_d_def)
  show ?thesis
    using fnv1a_hash_prefix_256 [OF h, of "start zero_slots" "start zero_slots"]
      fnv1a_hash_prefix_256 [OF k, of "start zero_slots" "start zero_stats"] h k
    by (simp add: bytes_a_def bytes_b_def bytes_c_def bytes_d_def)
qed

text \<open>
  Claim C4. When the transmit hook reaches the cache lookup (a GET request with a
  non-empty URL token), it looks the key up once. On a hit the cache-hit slot is
  incremented, once, if and only if the current time minus the entry's timestamp, in
  64-bit unsigned arithmetic, is below 60,000,000,000; at a difference of exactly
  60,000,000,000 it is not. For a timestamp not after the current time this is the
  difference of the two times as numbers. A stale hit and a miss leave every slot but
  the total as it was.
\<close>

theorem cache_hit_fresh_iff_within_ttl:
  assumes "tc_get_request e pkt" and "url_token pkt (payload_off pkt + 4) \<noteq> []"
  shows "\<exists>s'. tc_http_cache e hc now pkt (start st) = Some (TC_ACT_OK, s') \<and>
           count_list (trace s') (Lookup_cache (tc_key pkt)) = 1 \<and>
           (case hc (tc_key pkt) of
              None \<Rightarrow> stats s' = st(0 := st 0 + 1) \<and> Incr_slot 1 \<notin> set (trace s')
            | Some entry \<Rightarrow>
                (if now - timestamp entry < 60000000000
                 then stats s' = st(0 := st 0 + 1, 1 := st 1 + 1) \<and>
                      count_list (trace s') (Incr_slot 1) = 1
                 else stats s' = st(0 := st 0 + 1) \<and> Incr_slot 1 \<notin> set (trace s')) \<and>
                (now - timestamp entry = 60000000000 \<longrightarrow> stats s' = st(0 := st 0 + 1)) \<and>
                (timestamp entry \<le> now \<longrightarrow>
                   (now - timestamp entry < 60000000000) =
                   (unat now - unat (timestamp entry) < 60000000000)))"
proof -
  have w: "\<And>t :: u64. t \<le> now \<Longrightarrow>
             (now - t < 60000000000) = (unat now - unat t < 60000000000)"
    by (simp add: word_less_nat_alt unat_sub)
  show ?thesis
    using assms(2) w
    by (auto simp add: tc_get [OF assms(1)] tc_cache_check_def tc_key_def Let_def array_lookup_def
          incr_slot_def emit_def split: option.splits)
qed

theorem cache_hit_fresh_iff_within_ttl_witness:
  "tc_get_request Big_endian (get_request Big_endian) \<and>
   url_token (get_request Big_endian) (payload_off (get_request Big_endian) + 4) \<noteq> [] \<and>
   cached_at 50 (tc_key (get_request Big_endian)) =
     Some \<lparr>timestamp = 50, status = 200, content_len = 0, content_type = 0, body = []\<rparr> \<and>
   (50 :: u64) \<le> 100 \<and> (100 :: u64) - 50 < 60000000000 \<and>
   tc_outcome (tc_http_cache Big_endian (cached_at 50) 100 (get_request Big_endian) (start zero_slots)) =
     Some (TC_ACT_OK, 1, 1) \<and>
   tc_outcome (tc_http_cache Big_endian (cached_at 50) 60000000050 (get_request Big_endian) (start zero_slots)) =
     Some (TC_ACT_OK, 1, 0)"
proof -
  have t: "url_token (get_request Big_endian) (payload_off (get_request Big_endian) + 4) \<noteq> []"
    by (simp add: get_request_token)
  show ?thesis
    using cache_hit_fresh_iff_within_ttl [OF get_request_is_get t, of "cached_at 50" 100 zero_slots]
      cache_hit_fresh_iff_within_ttl [OF get_request_is_get t, of "cached_at 50" 60000000050 zero_slots]
      get_request_is_get [of Big_endian] t
    by (auto simp add: cached_at_def tc_outcome_def zero_slots_def)
qed

section \<open>Bounds safety\<close>

text \<open>
  Claim C1, as amended. For every packet buffer, however short, both hooks run to their
  verdict without a load outside the buffer: every load of the run lies below the end
  boundary. When the Ethernet, IP or TCP header does not fit, the receive hook returns
  \<^verbatim>\<open>XDP_PASS\<close> without a route lookup; the transmit hook always returns
  \<^verbatim>\<open>TC_ACT_OK\<close>, and makes no cache lookup when a header, the method token or the first
  URL byte does not fit.
\<close>

theorem packet_loads_in_bounds:
  "(\<exists>v s. xdp_router_prog e rm pkt (start st) = Some (v, s) \<and>
       (\<forall>off n. Load off n \<in> set (trace s) \<longrightarrow> off + n \<le> length pkt) \<and>
       (\<not> xdp_headers_fit pkt \<longrightarrow> v = XDP_PASS \<and> (\<forall>k. Lookup_route k \<notin> set (trace s)))) \<and>
   (\<exists>s. tc_http_cache e hc now pkt (start sl) = Some (TC_ACT_OK, s) \<and>
       (\<forall>off n. Load off n \<in> set (trace s) \<longrightarrow> off + n \<le> length pkt) \<and>
       (\<not> (tc_headers_fit pkt \<and> payload_off pkt + 4 < length pkt) \<longrightarrow>
          (\<forall>k. Lookup_cache k \<notin> set (trace s))))"
  using xdp_loads_in_bounds tc_loads_in_bounds by blast

theorem packet_loads_in_bounds_witness:
  "\<not> xdp_headers_fit frame_cut \<and>
   \<not> (tc_headers_fit frame_cut \<and> payload_off frame_cut + 4 < length frame_cut) \<and>
   (\<exists>v s. xdp_router_prog Little_endian (route_to 1) frame_cut (start zero_stats) = Some (v, s) \<and>
       Load 12 2 \<in> set (trace s) \<and> 12 + 2 \<le> length frame_cut \<and>
       v = XDP_PASS \<and> (\<forall>k. Lookup_route k \<notin> set (trace s))) \<and>
   (\<exists>s. tc_http_cache Little_endian (cached_at 0) 0 frame_cut (start zero_slots) = Some (TC_ACT_OK, s) \<and>
       Load 12 2 \<in> set (trace s) \<and> 12 + 2 \<le> length frame_cut \<and>
       (\<forall>k. Lookup_cache k \<notin> set (trace s)))"
proof -
  have x: "\<not> xdp_headers_fit frame_cut"
    by (simp add: xdp_headers_fit_def frame_cut_def frame_tcp_def tcp_off_def)
  have t: "\<not> tc_headers_fit frame_cut"
    by (simp add: tc_headers_fit_def frame_cut_def frame_tcp_def tcp_off_def)
  have l: "length frame_cut = 40" "frame_cut ! 12 = 0x08" "frame_cut ! 13 = 0x00"
    "frame_cut ! 14 = 0x45" "frame_cut ! 23 = 6"
    by (simp_all add: frame_cut_def frame_tcp_def)
  have ex: "events (xdp_router_prog Little_endian (route_to 1) frame_cut (start zero_stats)) =
      Some [Lookup_stats 0, Incr_field Packets_total, Load 12 2, Load 14 1, Load 23 1, Load 14 1]"
    by (simp add: xdp_router_prog_def array_lookup_def parse_eth_def parse_ip_def parse_tcp_def
          field_reads Let_def bpf_htons_def bswap16_def l load_word_def start_def emit_def events_def)
  have et: "events (tc_http_cache Little_endian (cached_at 0) 0 frame_cut (start zero_slots)) =
      Some [Lookup_stats 0, Incr_slot 0, Load 12 2, Load 23 1, Load 14 1]"
    by (simp add: tc_http_cache_def array_lookup_def incr_slot_def
          field_reads Let_def bpf_htons_def bswap16_def l load_word_def start_def emit_def events_def)
  show ?thesis
    using packet_loads_in_bounds [of Little_endian "route_to 1" frame_cut zero_stats "cached_at 0" 0 zero_slots]
      x t l(1) ex et
    by (auto simp add: events_def)
qed

text \<open>
  Claim C1 as stated fails for the check of a URL byte after the first: on a GET request
  whose buffer ends four bytes into the URL, the check of the fifth URL byte fails
  (\<open>url_start + 4\<close> is the end boundary), and the hook goes on to fingerprint the four
  bytes and to look the cache up.
\<close>

theorem url_boundary_check_fails_then_lookup:
  "length (get_truncated Big_endian) \<le> payload_off (get_truncated Big_endian) + 4 + 4 \<and>
   events (tc_http_cache Big_endian no_cache 0 (get_truncated Big_endian) (start zero_slots)) =
     Some [Lookup_stats 0, Incr_slot 0, Load 12 2, Load 23 1, Load 14 1, Load 36 2, Load 46 1,
           Load 54 4, Load 58 1, Load 59 1, Load 60 1, Load 61 1,
           Call_fnv1a 58 4, Load 58 1, Load 59 1, Load 60 1, Load 61 1,
           Lookup_cache \<lparr>hash = 3982406500079243962, method = 1, port = 80, padding = 0\<rparr>] \<and>
   length (get_truncated Little_endian) \<le> payload_off (get_truncated Little_endian) + 4 + 4 \<and>
   events (tc_http_cache Little_endian no_cache 0 (get_truncated Little_endian) (start zero_slots)) =
     Some [Lookup_stats 0, Incr_slot 0, Load 12 2, Load 23 1, Load 14 1, Load 36 2, Load 46 1,
           Load 54 4, Load 58 1, Load 59 1, Load 60 1, Load 61 1,
           Call_fnv1a 58 4, Load 58 1, Load 59 1, Load 60 1, Load 61 1,
           Lookup_cache \<lparr>hash = 3982406500079243962, method = 1, port = 80, padding = 0\<rparr>]"
  by (simp add: get_truncated_run get_truncated_facts)

section \<open>The IP version at the transmit hook\<close>

text \<open>
  Claim C5 does not hold of the transmit hook. A request whose IP version field is 5
  is taken through to the cache lookup by \<^verbatim>\<open>tc_http_cache\<close>, which has no version
  check; \<^verbatim>\<open>xdp_router_prog\<close>, through \<^verbatim>\<open>parse_ip\<close>, stops at the version on the same
  packet.
\<close>

theorem tc_looks_up_ip_version_5:
  "ip_vers (get_request_v5 Big_endian) = 5 \<and>
   events (tc_http_cache Big_endian no_cache 0 (get_request_v5 Big_endian) (start zero_slots)) =
     Some [Lookup_stats 0, Incr_slot 0, Load 12 2, Load 23 1, Load 14 1, Load 36 2, Load 46 1,
           Load 54 4, Load 58 1, Load 59 1, Load 60 1, Load 61 1, Load 62 1,
           Call_fnv1a 58 4, Load 58 1, Load 59 1, Load 60 1, Load 61 1,
           Lookup_cache \<lparr>hash = 3908606180096663756, method = 1, port = 80, padding = 0\<rparr>] \<and>
   events (xdp_router_prog Big_endian (route_to 1) (get_request_v5 Big_endian) (start zero_stats)) =
     Some [Lookup_stats 0, Incr_field Packets_total, Load 12 2, Load 14 1] \<and>
   ip_vers (get_request_v5 Little_endian) = 5 \<and>
   events (tc_http_cache Little_endian no_cache 0 (get_request_v5 Little_endian) (start zero_slots)) =
     Some [Lookup_stats 0, Incr_slot 0, Load 12 2, Load 23 1, Load 14 1, Load 36 2, Load 46 1,
           Load 54 4, Load 58 1, Load 59 1, Load 60 1, Load 61 1, Load 62 1,
           Call_fnv1a 58 4, Load 58 1, Load 59 1, Load 60 1, Load 61 1,
           Lookup_cache \<lparr>hash = 3908606180096663756, method = 1, port = 80, padding = 0\<rparr>] \<and>
   events (xdp_router_prog Little_endian (route_to 1) (get_request_v5 Little_endian) (start zero_stats)) =
     Some [Lookup_stats 0, Incr_field Packets_total, Load 12 2, Load 14 1]"
  by (simp add: get_request_v5_run get_request_v5_xdp get_request_v5_facts)

end
